theory Spec2Isabelle
  imports Complex_Main "HOL-Library.Word"
begin

section \<open>JavaScript values used by the node\<close>

text \<open>
  The two sources are \<^verbatim>\<open>src/nodes/AudioTranscribeNode/AudioTranscribe.node.ts\<close> (called
  \<^emph>\<open>node.ts\<close> below) and \<^verbatim>\<open>src/unnamed/part_000\<close> (called \<^emph>\<open>part_000\<close>). Both define
  \<^verbatim>\<open>AudioTranscribe.execute\<close>; the downmix code is the same text in both.

  A JavaScript number is an IEEE double. The model keeps the finite values as reals
  (rounding and overflow to an infinity are idealised away) and adds \<open>NaN\<close>, which is
  what arithmetic on \<^verbatim>\<open>undefined\<close> yields: reading a typed array out of range gives
  \<^verbatim>\<open>undefined\<close>, and \<^verbatim>\<open>undefined + x\<close> is \<open>NaN\<close>.
\<close>

datatype jsnum = Num real | NaN

fun js_add :: "jsnum \<Rightarrow> jsnum \<Rightarrow> jsnum" where
  "js_add (Num a) (Num b) = Num (a + b)"
| "js_add _ _ = NaN"

fun js_mul :: "jsnum \<Rightarrow> jsnum \<Rightarrow> jsnum" where
  "js_mul (Num a) (Num b) = Num (a * b)"
| "js_mul _ _ = NaN"

text \<open>The only divisor in the source is the literal 2; a zero divisor (an infinity or
  \<open>NaN\<close> in JavaScript) is outside the finite values and is rendered as \<open>NaN\<close>.\<close>

fun js_div :: "jsnum \<Rightarrow> jsnum \<Rightarrow> jsnum" where
  "js_div (Num a) (Num b) = (if b = 0 then NaN else Num (a / b))"
| "js_div _ _ = NaN"

text \<open>A \<^verbatim>\<open>Float64Array\<close> has a fixed length: a read out of range gives \<^verbatim>\<open>undefined\<close>
  (\<open>NaN\<close> once it enters arithmetic), a write out of range is dropped.\<close>

definition typed_get :: "jsnum list \<Rightarrow> nat \<Rightarrow> jsnum" where
  "typed_get xs i = (if i < length xs then xs ! i else NaN)"

definition typed_set :: "jsnum list \<Rightarrow> nat \<Rightarrow> jsnum \<Rightarrow> jsnum list" where
  "typed_set xs i v = (if i < length xs then xs[i := v] else xs)"

text \<open>
  An error object: its \<^verbatim>\<open>name\<close>, its \<^verbatim>\<open>message\<close> and its \<^verbatim>\<open>context\<close> property.
  \<open>err_context = None\<close> is an error without a \<^verbatim>\<open>context\<close> property (a plain
  \<^verbatim>\<open>TypeError\<close>); \<open>Some c\<close> is a context whose \<^verbatim>\<open>itemIndex\<close> is \<open>c\<close>.
\<close>

datatype js_error =
  JsError (err_name: string) (err_message: string) (err_context: "nat option option")

text \<open>\<^verbatim>\<open>new NodeOperationError(this.getNode(), message, { itemIndex })\<close>\<close>

definition NodeOperationError :: "string \<Rightarrow> nat \<Rightarrow> js_error" where
  "NodeOperationError msg itemIndex = JsError ''NodeOperationError'' msg (Some (Some itemIndex))"

definition TypeError :: "string \<Rightarrow> js_error" where
  "TypeError msg = JsError ''TypeError'' msg None"


section \<open>The downmix step\<close>

text \<open>
  \<^verbatim>\<open>wav.getSamples()\<close> returns one \<^verbatim>\<open>Float64Array\<close> for a one-channel file and a
  JavaScript \<^verbatim>\<open>Array\<close> of per-channel \<^verbatim>\<open>Float64Array\<close>s otherwise;
  \<^verbatim>\<open>Array.isArray\<close> tells them apart.
\<close>

datatype audio_data = Flat "jsnum list" | Channels "jsnum list list"

definition SCALING_FACTOR :: jsnum where
  "SCALING_FACTOR = Num (sqrt 2)"

text \<open>
  The loop of node.ts lines 221-223 (part_000 lines 197-199):
  \<^verbatim>\<open>
  for (let i = 0; i < audioData.length; i++) {
      audioData[0][i] = SCALING_FACTOR * (audioData[0][i] + audioData[1][i]) / 2;
  }
  \<close>
  \<^verbatim>\<open>audioData.length\<close> is the length of the outer array, the number of channels.
  With fewer than two channels \<^verbatim>\<open>audioData[1]\<close> is \<^verbatim>\<open>undefined\<close> and indexing it
  throws a \<^verbatim>\<open>TypeError\<close>.
\<close>

function downmix_loop :: "nat \<Rightarrow> jsnum list list \<Rightarrow> js_error + jsnum list list" where
  "downmix_loop i audioData =
     (if i < length audioData then
        (case audioData of
           ch0 # ch1 # rest \<Rightarrow>
             downmix_loop (Suc i)
               (typed_set ch0 i
                  (js_div (js_mul SCALING_FACTOR (js_add (typed_get ch0 i) (typed_get ch1 i)))
                     (Num 2))
                # ch1 # rest)
         | _ \<Rightarrow> Inl (TypeError ''Cannot read properties of undefined''))
      else Inr audioData)"
  by pat_completeness auto
termination
  by (relation "measure (\<lambda>(i, audioData). length audioData - i)") auto

declare downmix_loop.simps [simp del]

text \<open>
  Lines 217-226 of node.ts (193-202 of part_000). The result is the value handed to the
  transcriber: \<open>None\<close> is \<^verbatim>\<open>undefined\<close>, which is what \<^verbatim>\<open>audioData[0]\<close> is for an
  empty array.
\<close>

definition downmix :: "audio_data \<Rightarrow> js_error + jsnum list option" where
  "downmix audioData =
     (case audioData of
        Flat samples \<Rightarrow> Inr (Some samples)
      | Channels chs \<Rightarrow>
          (if length chs > 0 then
             (case downmix_loop 0 chs of
                Inl e \<Rightarrow> Inl e
              | Inr chs' \<Rightarrow> Inr (case chs' of [] \<Rightarrow> None | ch0 # _ \<Rightarrow> Some ch0))
           else Inr None))"


section \<open>Work items and the host\<close>

type_synonym byte = "8 word"

text \<open>
  \<^verbatim>\<open>IBinaryData\<close>: \<^verbatim>\<open>data\<close> is declared a string (base64); node.ts checks
  \<^verbatim>\<open>typeof binaryItem.data\<close> at run time, so the other case carries the type's name.
\<close>

datatype binary_payload = Base64 string | NotString string

record IBinaryData =
  data :: binary_payload
  mimeType :: string
  fileExtension :: "string option"

text \<open>\<^verbatim>\<open>INodeExecutionData\<close>; \<open>'v\<close> is the type of JSON values, the transcription result
  among them.\<close>

record 'v INodeExecutionData =
  json :: "string \<rightharpoonup> 'v"
  binary :: "(string \<rightharpoonup> IBinaryData) option"
  error :: "js_error option"
  pairedItem :: "nat option"

text \<open>The command built at node.ts lines 186-190.\<close>

record ffmpeg_command =
  format :: string
  audioCodec :: string
  audioFrequency :: nat
  audioChannels :: nat

text \<open>
  What the engine does with a command and an input: the \<^verbatim>\<open>error\<close> event with
  \<^verbatim>\<open>err.message\<close>, \<^verbatim>\<open>stdout\<close> and \<^verbatim>\<open>stderr\<close>, or the \<^verbatim>\<open>end\<close> event after the
  \<^verbatim>\<open>data\<close> chunks. An engine that emits neither leaves the promise pending; every
  external call is taken to return.
\<close>

datatype ffmpeg_outcome = FfError string string string | FfEnd "byte list list"

text \<open>
  Everything \<^verbatim>\<open>execute\<close> calls and does not define: the host (\<^verbatim>\<open>this\<close>), the
  transformers pipeline, \<^verbatim>\<open>Buffer.from\<close>, fluent-ffmpeg and the wavefile object, whose
  state has type \<open>'w\<close> (its methods mutate it; the model passes the state on). \<open>'t\<close> is
  the loaded transcriber. \<open>getInputData_other k\<close> is \<^verbatim>\<open>this.getInputData(k)\<close> for
  \<open>k \<ge> 1\<close>; \<^verbatim>\<open>this.getInputData(0)\<close> is the \<^verbatim>\<open>items\<close> array itself. The dynamic import
  of node.ts line 140 is taken to succeed, and the \<^verbatim>\<open>logger.info\<close> calls, which change
  nothing, are left out.
\<close>

record ('w, 't, 'v) host =
  getNodeParameter :: "string \<Rightarrow> nat \<Rightarrow> js_error + string"
  continueOnFail :: bool
  getInputData_other :: "nat \<Rightarrow> js_error + 'v INodeExecutionData list"
  pipeline :: "string \<Rightarrow> js_error + 't"
  transcriber :: "'t \<Rightarrow> jsnum list option \<Rightarrow> (nat \<times> nat) option \<Rightarrow> js_error + 'v"
  Buffer_from_base64 :: "string \<Rightarrow> byte list"
  getBinaryDataBuffer :: "nat \<Rightarrow> string \<Rightarrow> js_error + byte list"
  ffmpeg :: "ffmpeg_command \<Rightarrow> byte list \<Rightarrow> ffmpeg_outcome"
  WaveFile :: "byte list \<Rightarrow> js_error + 'w"
  toBitDepth :: "'w \<Rightarrow> string \<Rightarrow> js_error + 'w"
  toSampleRate :: "'w \<Rightarrow> nat \<Rightarrow> js_error + 'w"
  getSamples :: "'w \<Rightarrow> js_error + audio_data"

text \<open>The external calls a run makes, in the order it makes them.\<close>

datatype event =
    GetNodeParameter string nat
  | LoadPipeline string
  | GetBinaryDataBuffer nat string
  | RunFfmpeg ffmpeg_command "byte list"
  | LoggerError string
  | NewWaveFile "byte list"
  | ToBitDepth string
  | ToSampleRate nat
  | GetSamples
  | Transcribe "jsnum list option"

text \<open>A computation: the calls made so far, and an error thrown or a value.\<close>

type_synonym 'a eff = "event list \<times> (js_error + 'a)"

definition ret :: "'a \<Rightarrow> 'a eff" where
  "ret x = ([], Inr x)"

definition throw :: "js_error \<Rightarrow> 'a eff" where
  "throw e = ([], Inl e)"

definition call :: "event \<Rightarrow> js_error + 'a \<Rightarrow> 'a eff" where
  "call ev r = ([ev], r)"

definition and_then :: "'a eff \<Rightarrow> ('a \<Rightarrow> 'b eff) \<Rightarrow> 'b eff" where
  "and_then m f =
     (case m of
        (tr, Inl e) \<Rightarrow> (tr, Inl e)
      | (tr, Inr x) \<Rightarrow> (case f x of (tr', r) \<Rightarrow> (tr @ tr', r)))"


section \<open>The steps of one item\<close>

text \<open>
  The transcoder adapter, node.ts lines 183-206. The promise is rejected in the
  \<^verbatim>\<open>error\<close> handler, after two \<^verbatim>\<open>logger.error\<close> calls, and resolved in the
  \<^verbatim>\<open>end\<close> handler with the chunks concatenated.
\<close>

definition transcode_command :: ffmpeg_command where
  "transcode_command =
     \<lparr>format = ''wav'', audioCodec = ''pcm_s16le'', audioFrequency = 16000, audioChannels = 1\<rparr>"

definition transcode :: "('w, 't, 'v) host \<Rightarrow> nat \<Rightarrow> byte list \<Rightarrow> byte list eff" where
  "transcode h itemIndex buffer =
     (case ffmpeg h transcode_command buffer of
        FfError err_msg stdout stderr \<Rightarrow>
          ([RunFfmpeg transcode_command buffer,
            LoggerError (''Std out: '' @ stdout),
            LoggerError (''Std err: '' @ stderr)],
           Inl (NodeOperationError (''Conversion failed: '' @ err_msg) itemIndex))
      | FfEnd chunks \<Rightarrow> ([RunFfmpeg transcode_command buffer], Inr (concat chunks)))"

text \<open>The test of node.ts line 182.\<close>

definition is_mp3 :: "IBinaryData \<Rightarrow> bool" where
  "is_mp3 binaryItem \<longleftrightarrow>
     mimeType binaryItem = ''audio/mpeg'' \<or> mimeType binaryItem = ''audio/mp3''
     \<or> fileExtension binaryItem = Some ''mp3''"

text \<open>node.ts lines 178-210: the value of \<^verbatim>\<open>audioBufferWav\<close>.\<close>

definition prepare_wav_buffer ::
  "('w, 't, 'v) host \<Rightarrow> nat \<Rightarrow> IBinaryData \<Rightarrow> byte list \<Rightarrow> byte list eff" where
  "prepare_wav_buffer h itemIndex binaryItem buffer =
     (if is_mp3 binaryItem then transcode h itemIndex buffer else ret buffer)"

text \<open>node.ts lines 212-214 and 217, part_000 lines 189-193.\<close>

definition load_samples :: "('w, 't, 'v) host \<Rightarrow> byte list \<Rightarrow> audio_data eff" where
  "load_samples h buffer =
     and_then (call (NewWaveFile buffer) (WaveFile h buffer)) (\<lambda>wav.
     and_then (call (ToBitDepth ''32f'') (toBitDepth h wav ''32f'')) (\<lambda>wav.
     and_then (call (ToSampleRate 16000) (toSampleRate h wav 16000)) (\<lambda>wav.
     call GetSamples (getSamples h wav))))"

text \<open>The downmix and the transcriber call: node.ts lines 216-229 with no options,
  part_000 lines 193-206 with \<^verbatim>\<open>{ chunk_length_s: 30, stride_length_s: 5 }\<close>.\<close>

definition transcribe_samples ::
  "('w, 't, 'v) host \<Rightarrow> 't \<Rightarrow> (nat \<times> nat) option \<Rightarrow> audio_data \<Rightarrow> 'v eff" where
  "transcribe_samples h t opts audioData =
     (case downmix audioData of
        Inl e \<Rightarrow> throw e
      | Inr samples \<Rightarrow> call (Transcribe samples) (transcriber h t samples opts))"


text \<open>The four parameter reads that open the \<^verbatim>\<open>try\<close> block in both files.\<close>

definition get_parameter :: "('w, 't, 'v) host \<Rightarrow> string \<Rightarrow> nat \<Rightarrow> string eff" where
  "get_parameter h name itemIndex =
     call (GetNodeParameter name itemIndex) (getNodeParameter h name itemIndex)"

text \<open>
  The \<^verbatim>\<open>try\<close> block of node.ts, lines 148-245. The value is the item after the block:
  \<^verbatim>\<open>item.json.transcription = result\<close> writes into the item of the input array.
  \<^verbatim>\<open>item.binary[binaryPropertyName]\<close> is \<^verbatim>\<open>undefined\<close> for a missing property, and
  reading \<^verbatim>\<open>data\<close> of it throws a \<^verbatim>\<open>TypeError\<close>.
\<close>

definition try_body ::
  "('w, 't, 'v) host \<Rightarrow> nat \<Rightarrow> 'v INodeExecutionData \<Rightarrow> 'v INodeExecutionData eff" where
  "try_body h itemIndex item =
     and_then (get_parameter h ''operation'' itemIndex) (\<lambda>operation.
     and_then (get_parameter h ''audioInputType'' itemIndex) (\<lambda>audioInputType.
     and_then (get_parameter h ''binaryPropertyName'' itemIndex) (\<lambda>binaryPropertyName.
     and_then (get_parameter h ''model'' itemIndex) (\<lambda>model.
     if operation = ''transcribe'' then
       if audioInputType = ''binaryFile'' then
         (case binary item of
            None \<Rightarrow> throw (NodeOperationError ''No binary data found on item!'' itemIndex)
          | Some bin \<Rightarrow>
              and_then (call (LoadPipeline model) (pipeline h model)) (\<lambda>t.
              (case bin binaryPropertyName of
                 None \<Rightarrow> throw (TypeError ''Cannot read properties of undefined'')
               | Some binaryItem \<Rightarrow>
                   (case data binaryItem of
                      NotString ty \<Rightarrow>
                        throw (NodeOperationError
                          (''Expected binary data to be a string! Received type: '' @ ty)
                          itemIndex)
                    | Base64 s \<Rightarrow>
                        and_then
                          (prepare_wav_buffer h itemIndex binaryItem (Buffer_from_base64 h s))
                          (\<lambda>audioBufferWav.
                        and_then (load_samples h audioBufferWav) (\<lambda>audioData.
                        and_then (transcribe_samples h t None audioData) (\<lambda>result.
                        ret (item\<lparr>json := (json item)(''transcription'' \<mapsto> result)\<rparr>))))))))
       else ret item
     else ret item))))"

text \<open>
  The \<^verbatim>\<open>try\<close> block of part_000, lines 126-214. The value is what the block pushes onto
  \<^verbatim>\<open>returnData\<close>: a copy of the item with the transcription added, or nothing when the
  parameters select no operation. The buffer comes from the host's
  \<^verbatim>\<open>getBinaryDataBuffer\<close>; the transcoding code is commented out in this file.
\<close>

definition try_body_part_000 ::
  "('w, 't, 'v) host \<Rightarrow> nat \<Rightarrow> 'v INodeExecutionData \<Rightarrow> 'v INodeExecutionData option eff"
  where
  "try_body_part_000 h itemIndex item =
     and_then (get_parameter h ''operation'' itemIndex) (\<lambda>operation.
     and_then (get_parameter h ''audioInputType'' itemIndex) (\<lambda>audioInputType.
     and_then (get_parameter h ''binaryPropertyName'' itemIndex) (\<lambda>binaryPropertyName.
     and_then (get_parameter h ''model'' itemIndex) (\<lambda>model.
     if operation = ''transcribe'' then
       if audioInputType = ''binaryFile'' then
         (case binary item of
            None \<Rightarrow> throw (NodeOperationError ''No binary data found on item!'' itemIndex)
          | Some bin \<Rightarrow>
              and_then (call (LoadPipeline model) (pipeline h model)) (\<lambda>t.
              and_then
                (call (GetBinaryDataBuffer itemIndex binaryPropertyName)
                   (getBinaryDataBuffer h itemIndex binaryPropertyName))
                (\<lambda>buffer.
              and_then (load_samples h buffer) (\<lambda>audioData.
              and_then (transcribe_samples h t (Some (30, 5)) audioData) (\<lambda>result.
              ret (Some (item\<lparr>json := (json item)(''transcription'' \<mapsto> result)\<rparr>)))))))
       else ret None
     else ret None))))"


section \<open>The item loop and its error handler\<close>

text \<open>
  The abort branch of the handler, the same in both files: an error that has a
  \<^verbatim>\<open>context\<close> gets \<^verbatim>\<open>context.itemIndex\<close> set and is thrown again; any other is wrapped
  in a \<^verbatim>\<open>NodeOperationError\<close> carrying the index.
\<close>

definition abort_error :: "js_error \<Rightarrow> nat \<Rightarrow> js_error" where
  "abort_error e itemIndex =
     (case err_context e of
        Some _ \<Rightarrow> JsError (err_name e) (err_message e) (Some (Some itemIndex))
      | None \<Rightarrow> NodeOperationError (err_message e) itemIndex)"

text \<open>\<^verbatim>\<open>this.getInputData(k)\<close> as the handler of node.ts calls it (line 251), with the
  item index as the input index.\<close>

definition getInputData ::
  "('w, 't, 'v) host \<Rightarrow> nat \<Rightarrow> 'v INodeExecutionData list
     \<Rightarrow> js_error + 'v INodeExecutionData list" where
  "getInputData h k items = (if k = 0 then Inr items else getInputData_other h k)"

text \<open>
  The loop of node.ts, lines 146-265. The bound \<^verbatim>\<open>items.length\<close> is read again at every
  iteration and the handler pushes onto \<^verbatim>\<open>items\<close>, so the loop need not end: \<open>None\<close>
  is a run that does not return. An error thrown inside the handler
  (\<^verbatim>\<open>getInputData\<close> throwing, or \<^verbatim>\<open>[0].json\<close> of an empty list) leaves \<^verbatim>\<open>execute\<close>.
\<close>

partial_function (option) execute_loop ::
  "('w, 't, 'v) host \<Rightarrow> nat \<Rightarrow> 'v INodeExecutionData list \<Rightarrow> event list
     \<Rightarrow> (event list \<times> (js_error + 'v INodeExecutionData list list)) option" where
  "execute_loop h itemIndex items trace =
     (if itemIndex < length items then
        (case try_body h itemIndex (items ! itemIndex) of
           (tr, Inr item') \<Rightarrow>
             execute_loop h (Suc itemIndex) (items[itemIndex := item']) (trace @ tr)
         | (tr, Inl err) \<Rightarrow>
             if continueOnFail h then
               (case getInputData h itemIndex items of
                  Inl e \<Rightarrow> Some (trace @ tr, Inl e)
                | Inr [] \<Rightarrow>
                    Some (trace @ tr, Inl (TypeError ''Cannot read properties of undefined''))
                | Inr (first # _) \<Rightarrow>
                    execute_loop h (Suc itemIndex)
                      (items @ [\<lparr>json = json first, binary = None, error = Some err,
                                 pairedItem = Some itemIndex\<rparr>])
                      (trace @ tr))
             else Some (trace @ tr, Inl (abort_error err itemIndex)))
      else Some (trace, Inr [items]))"

definition execute ::
  "('w, 't, 'v) host \<Rightarrow> 'v INodeExecutionData list
     \<Rightarrow> (event list \<times> (js_error + 'v INodeExecutionData list list)) option" where
  "execute h items = execute_loop h 0 items []"

text \<open>
  The loop of part_000, lines 124-235: \<^verbatim>\<open>items\<close> is only read, the records go to
  \<^verbatim>\<open>returnData\<close>, and \<^verbatim>\<open>prepareOutputData\<close> wraps the list as the one output.
\<close>

function execute_loop_part_000 ::
  "('w, 't, 'v) host \<Rightarrow> nat \<Rightarrow> 'v INodeExecutionData list \<Rightarrow> 'v INodeExecutionData list
     \<Rightarrow> event list \<Rightarrow> event list \<times> (js_error + 'v INodeExecutionData list list)" where
  "execute_loop_part_000 h itemIndex items returnData trace =
     (if itemIndex < length items then
        (case try_body_part_000 h itemIndex (items ! itemIndex) of
           (tr, Inr None) \<Rightarrow>
             execute_loop_part_000 h (Suc itemIndex) items returnData (trace @ tr)
         | (tr, Inr (Some newItem)) \<Rightarrow>
             execute_loop_part_000 h (Suc itemIndex) items (returnData @ [newItem]) (trace @ tr)
         | (tr, Inl err) \<Rightarrow>
             if continueOnFail h then
               execute_loop_part_000 h (Suc itemIndex) items
                 (returnData @ [\<lparr>json = json (items ! itemIndex), binary = None,
                                  error = Some err, pairedItem = Some itemIndex\<rparr>])
                 (trace @ tr)
             else (trace @ tr, Inl (abort_error err itemIndex)))
      else (trace, Inr [returnData]))"
  by pat_completeness auto
termination
  by (relation "measure (\<lambda>(h, itemIndex, items, returnData, trace). length items - itemIndex)")
    auto

declare execute_loop_part_000.simps [simp del]

definition execute_part_000 ::
  "('w, 't, 'v) host \<Rightarrow> 'v INodeExecutionData list
     \<Rightarrow> event list \<times> (js_error + 'v INodeExecutionData list list)" where
  "execute_part_000 h items = execute_loop_part_000 h 0 items [] []"


section \<open>Predicates, a host and items used in the statements\<close>

text \<open>A sample is a finite number of magnitude at most \<open>b\<close>.\<close>

definition sample_within :: "real \<Rightarrow> jsnum \<Rightarrow> bool" where
  "sample_within b x = (case x of Num r \<Rightarrow> - b \<le> r \<and> r \<le> b | NaN \<Rightarrow> False)"

text \<open>The channel sequences of what \<^verbatim>\<open>getSamples\<close> returned.\<close>

definition channels_of :: "audio_data \<Rightarrow> jsnum list list" where
  "channels_of a = (case a of Flat s \<Rightarrow> [s] | Channels chs \<Rightarrow> chs)"

text \<open>\<^verbatim>\<open>String.prototype.includes\<close>: the needle occurs in the string as it is.\<close>

fun starts_with :: "string \<Rightarrow> string \<Rightarrow> bool" where
  "starts_with s [] = True"
| "starts_with [] (c # cs) = False"
| "starts_with (x # xs) (c # cs) = (x = c \<and> starts_with xs cs)"

fun str_includes :: "string \<Rightarrow> string \<Rightarrow> bool" where
  "str_includes [] needle = starts_with [] needle"
| "str_includes (x # xs) needle = (starts_with (x # xs) needle \<or> str_includes xs needle)"

text \<open>
  The item indices the loop has visited, in order: every iteration begins by reading the
  parameter \<^verbatim>\<open>operation\<close> for its index, and nothing else reads it.
\<close>

definition visited :: "event list \<Rightarrow> nat list" where
  "visited tr =
     concat (map (\<lambda>ev. case ev of
                          GetNodeParameter name itemIndex \<Rightarrow>
                            if name = ''operation'' then [itemIndex] else []
                        | _ \<Rightarrow> []) tr)"

text \<open>What the iteration for one item appends to \<^verbatim>\<open>returnData\<close> in part_000 when the
  run continues on failure (lines 210-212 and 218-223).\<close>

definition item_records ::
  "('w, 't, 'v) host \<Rightarrow> nat \<Rightarrow> 'v INodeExecutionData \<Rightarrow> 'v INodeExecutionData list" where
  "item_records h itemIndex item =
     (case snd (try_body_part_000 h itemIndex item) of
        Inr None \<Rightarrow> []
      | Inr (Some newItem) \<Rightarrow> [newItem]
      | Inl err \<Rightarrow> [\<lparr>json = json item, binary = None, error = Some err,
                      pairedItem = Some itemIndex\<rparr>])"

text \<open>The host has no input but input 0, the only one the node declares
  (\<^verbatim>\<open>inputs: [NodeConnectionType.Main]\<close>): \<^verbatim>\<open>getInputData(k)\<close> yields no item for
  \<open>k \<ge> 1\<close>.\<close>

definition single_input :: "('w, 't, 'v) host \<Rightarrow> bool" where
  "single_input h \<longleftrightarrow>
     (\<forall>k. 0 < k \<longrightarrow> (case getInputData_other h k of Inl e \<Rightarrow> True | Inr xs \<Rightarrow> xs = []))"

text \<open>
  A host to run the model on: the parameters have the values the node's menus offer,
  every external call succeeds, there is no input but input 0, and the wavefile state
  is the list of the conversions applied so far.
\<close>

definition demo_parameter :: "string \<Rightarrow> string" where
  "demo_parameter name =
     (if name = ''operation'' then ''transcribe''
      else if name = ''audioInputType'' then ''binaryFile''
      else if name = ''binaryPropertyName'' then ''data''
      else ''Xenova/whisper-tiny.en'')"

definition demo_host :: "bool \<Rightarrow> (string list, unit, string) host" where
  "demo_host cont =
     \<lparr>getNodeParameter = (\<lambda>name itemIndex. Inr (demo_parameter name)),
      continueOnFail = cont,
      getInputData_other = (\<lambda>k. Inr []),
      pipeline = (\<lambda>model. Inr ()),
      transcriber = (\<lambda>t samples opts. Inr ''text''),
      Buffer_from_base64 = (\<lambda>s. [1, 2, 3]),
      getBinaryDataBuffer = (\<lambda>itemIndex name. Inr [1, 2, 3]),
      ffmpeg = (\<lambda>cmd buffer. FfEnd [[4, 5], [6]]),
      WaveFile = (\<lambda>buffer. Inr []),
      toBitDepth = (\<lambda>wav depth. Inr (wav @ [depth])),
      toSampleRate = (\<lambda>wav rate. Inr (wav @ [''resampled''])),
      getSamples = (\<lambda>wav. Inr (Flat [Num 0]))\<rparr>"

text \<open>Items to run the model on.\<close>

definition item_without_binary :: "string INodeExecutionData" where
  "item_without_binary =
     \<lparr>json = [''id'' \<mapsto> ''a''], binary = None, error = None, pairedItem = None\<rparr>"

definition item_wav :: "string INodeExecutionData" where
  "item_wav =
     \<lparr>json = [''id'' \<mapsto> ''b''],
      binary = Some [''data'' \<mapsto>
        \<lparr>data = Base64 ''UklGRg=='', mimeType = ''audio/wav'', fileExtension = Some ''wav''\<rparr>],
      error = None, pairedItem = None\<rparr>"

definition item_mp3 :: "string INodeExecutionData" where
  "item_mp3 =
     \<lparr>json = [''id'' \<mapsto> ''c''],
      binary = Some [''data'' \<mapsto>
        \<lparr>data = Base64 ''SUQz'', mimeType = ''audio/mpeg'', fileExtension = None\<rparr>],
      error = None, pairedItem = None\<rparr>"

text \<open>
  In a trace, every \<^verbatim>\<open>toSampleRate\<close> call asks for 16000 Hz and comes right after a
  \<^verbatim>\<open>toBitDepth('32f')\<close> call; \<open>prev\<close> is the call before the trace.
\<close>

fun conversions_in_order :: "event option \<Rightarrow> event list \<Rightarrow> bool" where
  "conversions_in_order prev [] = True"
| "conversions_in_order prev (ev # tr) =
     ((case ev of
         ToSampleRate rate \<Rightarrow> rate = 16000 \<and> prev = Some (ToBitDepth ''32f'')
       | _ \<Rightarrow> True)
      \<and> conversions_in_order (Some ev) tr)"

text \<open>Hypotheses on the host used below: the parameters select the transcription of a
  binary file at every index; the host returns an item for every input index.\<close>

definition selects_transcription :: "('w, 't, 'v) host \<Rightarrow> bool" where
  "selects_transcription h \<longleftrightarrow>
     (\<forall>i. getNodeParameter h ''operation'' i = Inr ''transcribe'' \<and>
          getNodeParameter h ''audioInputType'' i = Inr ''binaryFile'' \<and>
          (\<exists>p. getNodeParameter h ''binaryPropertyName'' i = Inr p) \<and>
          (\<exists>m. getNodeParameter h ''model'' i = Inr m))"

definition serves_every_input :: "('w, 't, 'v) host \<Rightarrow> bool" where
  "serves_every_input h \<longleftrightarrow> (\<forall>k. 0 < k \<longrightarrow> (\<exists>x xs. getInputData_other h k = Inr (x # xs)))"


section \<open>The downmix loop\<close>

text \<open>
  After the loop started at \<open>i\<close>, channel 0 has the mixed value at the indices from
  \<open>i\<close> up to the number of channels (where it has such an index) and its old value
  everywhere else; the other channels are untouched.
\<close>

lemma downmix_loop_char:
  "\<exists>c. downmix_loop i (ch0 # ch1 # rest) = Inr (c # ch1 # rest) \<and> length c = length ch0 \<and>
     (\<forall>j < length ch0. c ! j =
        (if i \<le> j \<and> j < Suc (Suc (length rest))
         then js_div (js_mul SCALING_FACTOR (js_add (ch0 ! j) (typed_get ch1 j))) (Num 2)
         else ch0 ! j))"
proof (induction "Suc (Suc (length rest)) - i" arbitrary: i ch0)
  case 0
  then have "\<not> i < length (ch0 # ch1 # rest)" by simp
  then have "downmix_loop i (ch0 # ch1 # rest) = Inr (ch0 # ch1 # rest)"
    by (subst downmix_loop.simps) simp
  moreover have "\<forall>j < length ch0. \<not> (i \<le> j \<and> j < Suc (Suc (length rest)))"
    using 0 by auto
  ultimately show ?case by auto
next
  case (Suc k)
  define v where
    "v = js_div (js_mul SCALING_FACTOR (js_add (typed_get ch0 i) (typed_get ch1 i))) (Num 2)"
  define d where "d = typed_set ch0 i v"
  have lt: "i < length (ch0 # ch1 # rest)" using Suc.hyps(2) by simp
  have k: "k = Suc (Suc (length rest)) - Suc i" using Suc.hyps(2) by simp
  have len: "length d = length ch0" by (simp add: d_def typed_set_def)
  from Suc.hyps(1)[OF k, of d] obtain c where
    c1: "downmix_loop (Suc i) (d # ch1 # rest) = Inr (c # ch1 # rest)" and
    c2: "length c = length d" and
    c3: "\<forall>j < length d. c ! j =
        (if Suc i \<le> j \<and> j < Suc (Suc (length rest))
         then js_div (js_mul SCALING_FACTOR (js_add (d ! j) (typed_get ch1 j))) (Num 2)
         else d ! j)"
    by blast
  have step: "downmix_loop i (ch0 # ch1 # rest) = downmix_loop (Suc i) (d # ch1 # rest)"
    using lt by (subst downmix_loop.simps) (simp add: d_def v_def)
  have "c ! j =
        (if i \<le> j \<and> j < Suc (Suc (length rest))
         then js_div (js_mul SCALING_FACTOR (js_add (ch0 ! j) (typed_get ch1 j))) (Num 2)
         else ch0 ! j)" if j: "j < length ch0" for j
  proof (cases "j = i")
    case True
    then have "c ! j = d ! j" using c3 j len by simp
    also have "d ! j = v" using True j by (simp add: d_def typed_set_def)
    also have "v = js_div (js_mul SCALING_FACTOR (js_add (ch0 ! j) (typed_get ch1 j))) (Num 2)"
      using True j by (simp add: v_def typed_get_def)
    finally show ?thesis using True lt by simp
  next
    case False
    then have dj: "d ! j = ch0 ! j" by (simp add: d_def typed_set_def)
    have "(Suc i \<le> j) = (i \<le> j)" using False by auto
    then show ?thesis using c3 j len dj by simp
  qed
  then show ?case using step c1 c2 len by simp
qed

lemma downmix_channels:
  "\<exists>c. downmix (Channels (ch0 # ch1 # rest)) = Inr (Some c) \<and> length c = length ch0 \<and>
     (\<forall>j < length ch0. c ! j =
        (if j < Suc (Suc (length rest))
         then js_div (js_mul SCALING_FACTOR (js_add (ch0 ! j) (typed_get ch1 j))) (Num 2)
         else ch0 ! j))"
  using downmix_loop_char [of 0 ch0 ch1 rest] by (auto simp: downmix_def)

lemma mix_Num:
  "js_div (js_mul SCALING_FACTOR (js_add (Num a) (Num b))) (Num 2) = Num (sqrt 2 * (a + b) / 2)"
  by (simp add: SCALING_FACTOR_def)

lemma mix_bound:
  assumes "sample_within 1 x" "sample_within 1 y"
  shows "sample_within (sqrt 2) (js_div (js_mul SCALING_FACTOR (js_add x y)) (Num 2))"
proof -
  from assms obtain a b where xy: "x = Num a" "y = Num b" and
    a: "- 1 \<le> a" "a \<le> 1" and b: "- 1 \<le> b" "b \<le> 1"
    by (auto simp: sample_within_def split: jsnum.splits)
  have s: "0 \<le> sqrt 2" by simp
  have lo: "- 1 \<le> (a + b) / 2" and hi: "(a + b) / 2 \<le> 1" using a b by auto
  have "sqrt 2 * ((a + b) / 2) \<le> sqrt 2 * 1" by (rule mult_left_mono [OF hi s])
  moreover have "sqrt 2 * (- 1) \<le> sqrt 2 * ((a + b) / 2)" by (rule mult_left_mono [OF lo s])
  ultimately have "sample_within (sqrt 2) (Num (sqrt 2 * (a + b) / 2))"
    by (simp add: sample_within_def)
  then show ?thesis unfolding xy mix_Num .
qed

lemma sample_within_mono: "sample_within 1 x \<Longrightarrow> sample_within (sqrt 2) x"
proof -
  assume w: "sample_within 1 x"
  then obtain r where x: "x = Num r" and r: "- 1 \<le> r" "r \<le> 1"
    by (auto simp: sample_within_def split: jsnum.splits)
  have "(1::real) \<le> sqrt 2" by simp
  with r have "- sqrt 2 \<le> r \<and> r \<le> sqrt 2" by linarith
  then show ?thesis using x by (simp add: sample_within_def)
qed

text \<open>
  What the step computes on a stereo buffer of finite samples: the first two samples of
  the left channel are replaced by the mix, every later sample is the left channel's.
\<close>

lemma downmix_stereo:
  assumes "length ls = length rs"
  shows "\<exists>out. downmix (Channels [map Num ls, map Num rs]) = Inr (Some out) \<and>
     length out = length ls \<and>
     (\<forall>i < length ls. out ! i =
        (if i < 2 then Num (sqrt 2 * (ls ! i + rs ! i) / 2) else Num (ls ! i)))"
proof -
  from downmix_channels [of "map Num ls" "map Num rs" "[]"] obtain c where
    c: "downmix (Channels [map Num ls, map Num rs]) = Inr (Some c)"
       "length c = length ls"
       "\<forall>j < length ls. c ! j =
          (if j < 2
           then js_div (js_mul SCALING_FACTOR (js_add (map Num ls ! j) (typed_get (map Num rs) j)))
                  (Num 2)
           else map Num ls ! j)"
    by (auto simp: numeral_2_eq_2)
  have "c ! i = (if i < 2 then Num (sqrt 2 * (ls ! i + rs ! i) / 2) else Num (ls ! i))"
    if i: "i < length ls" for i
  proof -
    have "typed_get (map Num rs) i = Num (rs ! i)" using i assms by (simp add: typed_get_def)
    moreover have "map Num ls ! i = Num (ls ! i)" using i by simp
    ultimately show ?thesis using c(3) i by (simp only: mix_Num)
  qed
  then show ?thesis using c(1,2) by blast
qed


section \<open>Computations and traces\<close>

lemma and_then_pair:
  "and_then (tr, r) f =
     (case r of Inl e \<Rightarrow> (tr, Inl e) | Inr x \<Rightarrow> (tr @ fst (f x), snd (f x)))"
  by (simp add: and_then_def split: sum.splits prod.splits)

lemmas eff_simps = and_then_pair call_def ret_def throw_def

lemma fst_and_then:
  "fst (and_then m f) = (case snd m of Inl e \<Rightarrow> fst m | Inr x \<Rightarrow> fst m @ fst (f x))"
  by (cases m) (simp add: and_then_def split: sum.splits prod.splits)

lemma snd_and_then:
  "snd (and_then m f) = (case snd m of Inl e \<Rightarrow> Inl e | Inr x \<Rightarrow> snd (f x))"
  by (cases m) (simp add: and_then_def split: sum.splits prod.splits)

lemma starts_with_iff: "starts_with s n \<longleftrightarrow> (\<exists>r. s = n @ r)"
  by (induction s n rule: starts_with.induct) auto

lemma str_includes_iff: "str_includes s n \<longleftrightarrow> (\<exists>p r. s = p @ n @ r)"
proof (induction s)
  case Nil
  then show ?case by (simp add: starts_with_iff)
next
  case (Cons x xs)
  show ?case
  proof
    assume "str_includes (x # xs) n"
    then consider "starts_with (x # xs) n" | "str_includes xs n" by auto
    then show "\<exists>p r. x # xs = p @ n @ r"
    proof cases
      case 1
      then obtain r where "x # xs = n @ r" by (auto simp: starts_with_iff)
      then have "x # xs = [] @ n @ r" by simp
      then show ?thesis by blast
    next
      case 2
      then obtain p r where "xs = p @ n @ r" using Cons.IH by blast
      then have "x # xs = (x # p) @ n @ r" by simp
      then show ?thesis by blast
    qed
  next
    assume "\<exists>p r. x # xs = p @ n @ r"
    then obtain p r where pr: "x # xs = p @ n @ r" by blast
    show "str_includes (x # xs) n"
    proof (cases p)
      case Nil
      then have "starts_with (x # xs) n" using pr by (auto simp: starts_with_iff)
      then show ?thesis by simp
    next
      case (Cons y ys)
      then have "xs = ys @ n @ r" using pr by simp
      then have "str_includes xs n" using Cons.IH by blast
      then show ?thesis by simp
    qed
  qed
qed

lemma visited_append: "visited (xs @ ys) = visited xs @ visited ys"
  by (simp add: visited_def)

lemma visited_Nil: "visited [] = []"
  by (simp add: visited_def)

lemma visited_Cons:
  "visited (ev # tr) =
     (case ev of
        GetNodeParameter name itemIndex \<Rightarrow> if name = ''operation'' then [itemIndex] else []
      | _ \<Rightarrow> []) @ visited tr"
  by (simp add: visited_def)

lemma visited_call: "visited (fst (call ev r)) = visited [ev]"
  by (simp add: call_def)

lemma visited_ret: "visited (fst (ret x)) = []"
  by (simp add: ret_def visited_def)

lemma visited_throw: "visited (fst (throw e)) = []"
  by (simp add: throw_def visited_def)

lemma visited_and_then:
  "visited (fst (and_then m f)) =
     visited (fst m) @ (case snd m of Inl e \<Rightarrow> [] | Inr x \<Rightarrow> visited (fst (f x)))"
  by (cases m) (simp add: fst_and_then visited_append split: sum.splits)

lemmas visited_simps = visited_and_then visited_call visited_ret visited_throw visited_Cons
  visited_Nil

lemma visited_load_samples: "visited (fst (load_samples h buffer)) = []"
  by (simp add: load_samples_def visited_simps split: sum.splits)

lemma visited_transcribe_samples: "visited (fst (transcribe_samples h t opts a)) = []"
  by (simp add: transcribe_samples_def visited_simps split: sum.splits)

lemma visited_prepare_wav_buffer: "visited (fst (prepare_wav_buffer h i b buffer)) = []"
  by (simp add: prepare_wav_buffer_def transcode_def visited_simps
      split: ffmpeg_outcome.splits)

lemma visited_get_parameter:
  "visited (fst (get_parameter h name i)) = (if name = ''operation'' then [i] else [])"
  by (simp add: get_parameter_def visited_simps)

lemma visited_try_body: "visited (fst (try_body h i item)) = [i]"
  by (simp add: try_body_def visited_simps visited_get_parameter visited_load_samples
      visited_transcribe_samples visited_prepare_wav_buffer
      split: sum.splits option.splits binary_payload.splits)

lemma visited_try_body_part_000: "visited (fst (try_body_part_000 h i item)) = [i]"
  by (simp add: try_body_part_000_def visited_simps visited_get_parameter visited_load_samples
      visited_transcribe_samples
      split: sum.splits option.splits)

lemma load_samples_prefix:
  "\<exists>n. fst (load_samples h buffer)
     = take n [NewWaveFile buffer, ToBitDepth ''32f'', ToSampleRate 16000, GetSamples]"
proof (cases "WaveFile h buffer")
  case (Inl e)
  then have "fst (load_samples h buffer) = [NewWaveFile buffer]"
    by (simp add: load_samples_def eff_simps)
  then show ?thesis by (intro exI [of _ 1]) simp
next
  case w0: (Inr w0)
  show ?thesis
  proof (cases "toBitDepth h w0 ''32f''")
    case (Inl e)
    then have "fst (load_samples h buffer) = [NewWaveFile buffer, ToBitDepth ''32f'']"
      using w0 by (simp add: load_samples_def eff_simps)
    then show ?thesis by (intro exI [of _ 2]) simp
  next
    case w1: (Inr w1)
    show ?thesis
    proof (cases "toSampleRate h w1 16000")
      case (Inl e)
      then have "fst (load_samples h buffer)
          = [NewWaveFile buffer, ToBitDepth ''32f'', ToSampleRate 16000]"
        using w0 w1 by (simp add: load_samples_def eff_simps)
      then show ?thesis by (intro exI [of _ 3]) simp
    next
      case w2: (Inr w2)
      then have "fst (load_samples h buffer)
          = [NewWaveFile buffer, ToBitDepth ''32f'', ToSampleRate 16000, GetSamples]"
        using w0 w1 by (simp add: load_samples_def eff_simps)
      then show ?thesis by (intro exI [of _ 4]) simp
    qed
  qed
qed

lemma no_ffmpeg_load_samples:
  "RunFfmpeg cmd buf \<notin> set (fst (load_samples h buffer))"
  using load_samples_prefix [of h buffer] by (auto dest!: in_set_takeD)

lemma no_ffmpeg_transcribe:
  "RunFfmpeg cmd buf \<notin> set (fst (transcribe_samples h t opts a))"
  by (auto simp: transcribe_samples_def eff_simps split: sum.splits)

lemma prepare_wav_buffer_ffmpeg:
  "(\<exists>cmd buf. RunFfmpeg cmd buf \<in> set (fst (prepare_wav_buffer h i b buffer))) \<longleftrightarrow> is_mp3 b"
  by (auto simp: prepare_wav_buffer_def transcode_def eff_simps split: ffmpeg_outcome.splits)

lemma try_body_reach:
  assumes "getNodeParameter h ''operation'' i = Inr ''transcribe''"
    and "getNodeParameter h ''audioInputType'' i = Inr ''binaryFile''"
    and "getNodeParameter h ''binaryPropertyName'' i = Inr p"
    and "getNodeParameter h ''model'' i = Inr m"
    and "binary item = Some bin" and "bin p = Some b" and "data b = Base64 s"
    and "pipeline h m = Inr t"
  shows "try_body h i item =
     (let pre = [GetNodeParameter ''operation'' i, GetNodeParameter ''audioInputType'' i,
                 GetNodeParameter ''binaryPropertyName'' i, GetNodeParameter ''model'' i,
                 LoadPipeline m];
          rest = and_then (prepare_wav_buffer h i b (Buffer_from_base64 h s)) (\<lambda>audioBufferWav.
                 and_then (load_samples h audioBufferWav) (\<lambda>audioData.
                 and_then (transcribe_samples h t None audioData) (\<lambda>result.
                 ret (item\<lparr>json := (json item)(''transcription'' \<mapsto> result)\<rparr>))))
      in (pre @ fst rest, snd rest))"
  using assms by (simp add: try_body_def get_parameter_def eff_simps Let_def)

lemmas demo_simps = demo_host_def demo_parameter_def item_without_binary_def item_wav_def
  item_mp3_def

lemma try_body_part_000_without_binary: "try_body_part_000 (demo_host c) i item_without_binary
  = ([GetNodeParameter ''operation'' i, GetNodeParameter ''audioInputType'' i,
      GetNodeParameter ''binaryPropertyName'' i, GetNodeParameter ''model'' i],
     Inl (NodeOperationError ''No binary data found on item!'' i))"
  by (simp add: try_body_part_000_def get_parameter_def eff_simps demo_simps)

lemma try_body_part_000_wav: "try_body_part_000 (demo_host c) i item_wav
  = ([GetNodeParameter ''operation'' i, GetNodeParameter ''audioInputType'' i,
      GetNodeParameter ''binaryPropertyName'' i, GetNodeParameter ''model'' i,
      LoadPipeline ''Xenova/whisper-tiny.en'', GetBinaryDataBuffer i ''data'',
      NewWaveFile [1, 2, 3], ToBitDepth ''32f'', ToSampleRate 16000, GetSamples,
      Transcribe (Some [Num 0])],
     Inr (Some (item_wav\<lparr>json := (json item_wav)(''transcription'' \<mapsto> ''text'')\<rparr>)))"
  by (simp add: try_body_part_000_def get_parameter_def eff_simps demo_simps load_samples_def
      transcribe_samples_def downmix_def)











lemma conversions_sound:
  "conversions_in_order p tr \<Longrightarrow> tr = pre @ ToSampleRate r # post \<Longrightarrow>
   r = 16000 \<and> (if pre = [] then p else Some (last pre)) = Some (ToBitDepth ''32f'')"
  by (induction pre arbitrary: p tr) auto


section \<open>The item loops\<close>

lemma loop_part_000_char:
  "i \<le> length items \<Longrightarrow>
   \<exists>m. i \<le> m \<and> m \<le> length items \<and>
     visited (fst (execute_loop_part_000 h i items rd tr)) = visited tr @ [i..<m] \<and>
     (continueOnFail h \<longrightarrow> m = length items \<and>
        snd (execute_loop_part_000 h i items rd tr)
          = Inr [rd @ concat (map (\<lambda>k. item_records h k (items ! k)) [i..<length items])]) \<and>
     (m < length items \<longrightarrow> (\<exists>e. snd (execute_loop_part_000 h i items rd tr) = Inl e))"
proof (induction "length items - i" arbitrary: i rd tr)
  case 0
  then have "i = length items" by simp
  then have "execute_loop_part_000 h i items rd tr = (tr, Inr [rd])"
    by (subst execute_loop_part_000.simps) simp
  then show ?case using \<open>i = length items\<close> by (intro exI [of _ i]) simp
next
  case (Suc n)
  then have lt: "i < length items" and n: "n = length items - Suc i" and le: "Suc i \<le> length items"
    by simp_all
  obtain t r where tb: "try_body_part_000 h i (items ! i) = (t, r)" by fastforce
  have vt: "visited (tr @ t) = visited tr @ [i]"
    using visited_try_body_part_000 [of h i "items ! i"] tb by (simp add: visited_append)
  have rec: "\<exists>m. i \<le> m \<and> m \<le> length items \<and>
     visited (fst (execute_loop_part_000 h (Suc i) items rd' (tr @ t))) = visited tr @ [i..<m] \<and>
     (continueOnFail h \<longrightarrow> m = length items \<and>
        snd (execute_loop_part_000 h (Suc i) items rd' (tr @ t))
          = Inr [rd' @ concat (map (\<lambda>k. item_records h k (items ! k)) [Suc i..<length items])]) \<and>
     (m < length items \<longrightarrow> (\<exists>e. snd (execute_loop_part_000 h (Suc i) items rd' (tr @ t)) = Inl e))"
    for rd'
  proof -
    from Suc.hyps(1) [OF n le, of rd' "tr @ t"] obtain m where
      m: "Suc i \<le> m" "m \<le> length items"
      "visited (fst (execute_loop_part_000 h (Suc i) items rd' (tr @ t))) = visited (tr @ t) @ [Suc i..<m]"
      "continueOnFail h \<longrightarrow> m = length items \<and>
        snd (execute_loop_part_000 h (Suc i) items rd' (tr @ t))
          = Inr [rd' @ concat (map (\<lambda>k. item_records h k (items ! k)) [Suc i..<length items])]"
      "m < length items \<longrightarrow> (\<exists>e. snd (execute_loop_part_000 h (Suc i) items rd' (tr @ t)) = Inl e)"
      by blast
    have "visited (tr @ t) @ [Suc i..<m] = visited tr @ [i..<m]"
      using vt m(1) by (simp add: upt_conv_Cons)
    with m show ?thesis by (intro exI [of _ m]) simp
  qed
  have recs: "concat (map (\<lambda>k. item_records h k (items ! k)) [i..<length items])
      = item_records h i (items ! i)
        @ concat (map (\<lambda>k. item_records h k (items ! k)) [Suc i..<length items])"
    using lt by (simp add: upt_conv_Cons)
  show ?case
  proof (cases r)
    case (Inl e)
    show ?thesis
    proof (cases "continueOnFail h")
      case True
      let ?rec = "\<lparr>json = json (items ! i), binary = None, error = Some e, pairedItem = Some i\<rparr>"
      have step: "execute_loop_part_000 h i items rd tr
          = execute_loop_part_000 h (Suc i) items (rd @ [?rec]) (tr @ t)"
        using lt tb Inl True by (subst execute_loop_part_000.simps) simp
      have ir: "item_records h i (items ! i) = [?rec]"
        using tb Inl by (simp add: item_records_def)
      show ?thesis using rec [of "rd @ [?rec]"] unfolding step recs ir by simp
    next
      case False
      have step: "execute_loop_part_000 h i items rd tr = (tr @ t, Inl (abort_error e i))"
        using lt tb Inl False by (subst execute_loop_part_000.simps) simp
      show ?thesis using lt vt False unfolding step by (intro exI [of _ "Suc i"]) simp
    qed
  next
    case (Inr v)
    show ?thesis
    proof (cases v)
      case None
      have step: "execute_loop_part_000 h i items rd tr
          = execute_loop_part_000 h (Suc i) items rd (tr @ t)"
        using lt tb Inr None by (subst execute_loop_part_000.simps) simp
      have ir: "item_records h i (items ! i) = []"
        using tb Inr None by (simp add: item_records_def)
      show ?thesis using rec [of rd] unfolding step recs ir by simp
    next
      case (Some newItem)
      have step: "execute_loop_part_000 h i items rd tr
          = execute_loop_part_000 h (Suc i) items (rd @ [newItem]) (tr @ t)"
        using lt tb Inr Some by (subst execute_loop_part_000.simps) simp
      have ir: "item_records h i (items ! i) = [newItem]"
        using tb Inr Some by (simp add: item_records_def)
      show ?thesis using rec [of "rd @ [newItem]"] unfolding step recs ir by simp
    qed
  qed
qed

lemma loop_fixed_length:
  "\<not> continueOnFail h \<or> (0 < i \<and> single_input h) \<Longrightarrow> i \<le> length items \<Longrightarrow>
   \<exists>r m. execute_loop h i items tr = Some r \<and> i \<le> m \<and> m \<le> length items \<and>
     visited (fst r) = visited tr @ [i..<m] \<and>
     (m < length items \<longrightarrow> (\<exists>e. snd r = Inl e))"
proof (induction "length items - i" arbitrary: i items tr)
  case 0
  then have "i = length items" by simp
  then have "execute_loop h i items tr = Some (tr, Inr [items])"
    by (subst execute_loop.simps) simp
  then show ?case using \<open>i = length items\<close> by (intro exI [of _ "(tr, Inr [items])"] exI [of _ i]) simp
next
  case (Suc n)
  then have lt: "i < length items" by simp
  obtain t r where tb: "try_body h i (items ! i) = (t, r)" by fastforce
  have vt: "visited (tr @ t) = visited tr @ [i]"
    using visited_try_body [of h i "items ! i"] tb by (simp add: visited_append)
  show ?case
  proof (cases r)
    case (Inr item')
    let ?items = "items[i := item']"
    have step: "execute_loop h i items tr = execute_loop h (Suc i) ?items (tr @ t)"
      using lt tb Inr by (subst execute_loop.simps) simp
    have n: "n = length ?items - Suc i" using Suc.hyps(2) by simp
    have a: "\<not> continueOnFail h \<or> (0 < Suc i \<and> single_input h)" using Suc.prems(1) by auto
    have le: "Suc i \<le> length ?items" using lt by simp
    from Suc.hyps(1) [OF n a le, of "tr @ t"] obtain r' m where
      m: "execute_loop h (Suc i) ?items (tr @ t) = Some r'" "Suc i \<le> m" "m \<le> length ?items"
         "visited (fst r') = visited (tr @ t) @ [Suc i..<m]"
         "m < length ?items \<longrightarrow> (\<exists>e. snd r' = Inl e)"
      by blast
    have "visited (tr @ t) @ [Suc i..<m] = visited tr @ [i..<m]"
      using vt m(2) by (simp add: upt_conv_Cons)
    with m show ?thesis unfolding step by (intro exI [of _ r'] exI [of _ m]) simp
  next
    case (Inl e)
    show ?thesis
    proof (cases "continueOnFail h")
      case False
      have step: "execute_loop h i items tr = Some (tr @ t, Inl (abort_error e i))"
        using lt tb Inl False by (subst execute_loop.simps) simp
      show ?thesis using lt vt unfolding step
        by (intro exI [of _ "(tr @ t, Inl (abort_error e i))"] exI [of _ "Suc i"]) simp
    next
      case True
      then have i: "0 < i" and si: "single_input h" using Suc.prems(1) by auto
      then have "case getInputData_other h i of Inl e \<Rightarrow> True | Inr xs \<Rightarrow> xs = []"
        by (simp add: single_input_def)
      then have "\<exists>e'. execute_loop h i items tr = Some (tr @ t, Inl e')"
        using lt tb Inl True i
        by (subst execute_loop.simps) (auto simp: getInputData_def split: sum.splits)
      then obtain e' where step: "execute_loop h i items tr = Some (tr @ t, Inl e')" by blast
      show ?thesis using lt vt unfolding step
        by (intro exI [of _ "(tr @ t, Inl e')"] exI [of _ "Suc i"]) simp
    qed
  qed
qed

lemma execute_char:
  assumes "\<not> continueOnFail h \<or> single_input h"
  shows "\<exists>r m. execute h items = Some r \<and> visited (fst r) = [0..<m] \<and> m \<le> Suc (length items) \<and>
     (\<not> continueOnFail h \<longrightarrow> m \<le> length items \<and> (m < length items \<longrightarrow> (\<exists>e. snd r = Inl e)))"
proof (cases "continueOnFail h")
  case False
  have "\<not> continueOnFail h \<or> (0 < (0::nat) \<and> single_input h)" using False by simp
  from loop_fixed_length [OF this, of items "[]"] obtain r m where
    "execute_loop h 0 items [] = Some r" "m \<le> length items" "visited (fst r) = visited [] @ [0..<m]"
    "m < length items \<longrightarrow> (\<exists>e. snd r = Inl e)" by blast
  then show ?thesis unfolding execute_def
    by (intro exI [of _ r] exI [of _ m]) (simp add: visited_Nil)
next
  case True
  then have si: "single_input h" using assms by simp
  show ?thesis
  proof (cases items)
    case Nil
    then have "execute h items = Some ([], Inr [[]])"
      unfolding execute_def by (subst execute_loop.simps) simp
    then show ?thesis using True by (intro exI [of _ "([], Inr [[]])"] exI [of _ 0]) (simp add: visited_Nil)
  next
    case (Cons x xs)
    then have lt: "0 < length items" by simp
    obtain t r where tb: "try_body h 0 (items ! 0) = (t, r)" by fastforce
    have vt: "visited t = [0]"
      using visited_try_body [of h 0 "items ! 0"] tb by simp
    have "\<exists>items'. execute_loop h 0 items [] = execute_loop h (Suc 0) items' t \<and>
       Suc 0 \<le> length items' \<and> length items' \<le> Suc (length items)"
    proof (cases r)
      case (Inr item')
      have "execute_loop h 0 items [] = execute_loop h (Suc 0) (items[0 := item']) t"
        using lt tb Inr by (subst execute_loop.simps) simp
      moreover have "Suc 0 \<le> length (items[0 := item'])" using Cons by simp
      ultimately show ?thesis by (intro exI [of _ "items[0 := item']"]) simp
    next
      case (Inl e)
      let ?items = "items @ [\<lparr>json = json x, binary = None, error = Some e, pairedItem = Some 0\<rparr>]"
      have "execute_loop h 0 items [] = execute_loop h (Suc 0) ?items t"
        using lt tb Inl True Cons
        by (subst execute_loop.simps) (simp add: getInputData_def)
      then show ?thesis by (intro exI [of _ ?items]) simp
    qed
    then obtain items' where
      step: "execute_loop h 0 items [] = execute_loop h (Suc 0) items' t" and
      len: "Suc 0 \<le> length items'" "length items' \<le> Suc (length items)" by blast
    have "\<not> continueOnFail h \<or> (0 < Suc 0 \<and> single_input h)" using si by simp
    from loop_fixed_length [OF this len(1), of t] obtain r' m where
      m: "execute_loop h (Suc 0) items' t = Some r'" "Suc 0 \<le> m" "m \<le> length items'"
         "visited (fst r') = visited t @ [Suc 0..<m]" by blast
    have "visited t @ [Suc 0..<m] = [0..<m]" using vt m(2) by (simp add: upt_conv_Cons)
    with m len True show ?thesis unfolding execute_def step
      by (intro exI [of _ r'] exI [of _ m]) simp
  qed
qed

lemma loop_part_000_abort:
  "\<not> continueOnFail h \<Longrightarrow> i \<le> length items \<Longrightarrow>
   \<exists>m. i \<le> m \<and> m \<le> length items \<and>
     visited (fst (execute_loop_part_000 h i items rd tr)) = visited tr @ [i..<m] \<and>
     (\<forall>k. i \<le> k \<and> Suc k < m \<longrightarrow> (\<exists>v. snd (try_body_part_000 h k (items ! k)) = Inr v)) \<and>
     (m < length items \<longrightarrow>
        i < m \<and> (\<exists>e. snd (try_body_part_000 h (m - 1) (items ! (m - 1))) = Inl e))"
proof (induction "length items - i" arbitrary: i rd tr)
  case 0
  then have "i = length items" by simp
  then have "execute_loop_part_000 h i items rd tr = (tr, Inr [rd])"
    by (subst execute_loop_part_000.simps) simp
  then show ?case using \<open>i = length items\<close> by (intro exI [of _ i]) auto
next
  case (Suc n)
  then have lt: "i < length items" and n: "n = length items - Suc i" and le: "Suc i \<le> length items"
    by simp_all
  note ab = Suc.prems(1)
  obtain t r where tb: "try_body_part_000 h i (items ! i) = (t, r)" by fastforce
  have vt: "visited (tr @ t) = visited tr @ [i]"
    using visited_try_body_part_000 [of h i "items ! i"] tb by (simp add: visited_append)
  show ?case
  proof (cases r)
    case (Inl e)
    have step: "execute_loop_part_000 h i items rd tr = (tr @ t, Inl (abort_error e i))"
      using lt tb Inl ab by (subst execute_loop_part_000.simps) simp
    show ?thesis using lt vt tb Inl unfolding step by (intro exI [of _ "Suc i"]) auto
  next
    case (Inr v)
    have "\<exists>rd'. execute_loop_part_000 h i items rd tr
          = execute_loop_part_000 h (Suc i) items rd' (tr @ t)"
    proof (cases v)
      case None
      then have "execute_loop_part_000 h i items rd tr
          = execute_loop_part_000 h (Suc i) items rd (tr @ t)"
        using lt tb Inr by (subst execute_loop_part_000.simps) simp
      then show ?thesis by blast
    next
      case (Some newItem)
      then have "execute_loop_part_000 h i items rd tr
          = execute_loop_part_000 h (Suc i) items (rd @ [newItem]) (tr @ t)"
        using lt tb Inr by (subst execute_loop_part_000.simps) simp
      then show ?thesis by blast
    qed
    then obtain rd' where
      step: "execute_loop_part_000 h i items rd tr
          = execute_loop_part_000 h (Suc i) items rd' (tr @ t)" by blast
    from Suc.hyps(1) [OF n ab le, of rd' "tr @ t"] obtain m where
      m: "Suc i \<le> m" "m \<le> length items"
      "visited (fst (execute_loop_part_000 h (Suc i) items rd' (tr @ t)))
         = visited (tr @ t) @ [Suc i..<m]"
      "\<forall>k. Suc i \<le> k \<and> Suc k < m \<longrightarrow> (\<exists>v. snd (try_body_part_000 h k (items ! k)) = Inr v)"
      "m < length items \<longrightarrow>
        Suc i < m \<and> (\<exists>e. snd (try_body_part_000 h (m - 1) (items ! (m - 1))) = Inl e)"
      by blast
    have v: "visited (tr @ t) @ [Suc i..<m] = visited tr @ [i..<m]"
      using vt m(1) by (simp add: upt_conv_Cons)
    have ok: "\<exists>v. snd (try_body_part_000 h k (items ! k)) = Inr v" if "i \<le> k" "Suc k < m" for k
    proof (cases "k = i")
      case True
      then show ?thesis using tb Inr by simp
    next
      case False
      then have "Suc i \<le> k" using that(1) by simp
      then show ?thesis using m(4) that(2) by blast
    qed
    show ?thesis unfolding step using m(1,2,3,5) v ok by (intro exI [of _ m]) auto
  qed
qed

lemma single_input_demo: "single_input (demo_host c)"
  by (simp add: single_input_def demo_host_def)


lemma loop_abort:
  "\<not> continueOnFail h \<Longrightarrow> i \<le> length items \<Longrightarrow>
   \<exists>r m. execute_loop h i items tr = Some r \<and> i \<le> m \<and> m \<le> length items \<and>
     visited (fst r) = visited tr @ [i..<m] \<and>
     (\<forall>k. i \<le> k \<and> Suc k < m \<longrightarrow> (\<exists>v. snd (try_body h k (items ! k)) = Inr v)) \<and>
     (m < length items \<longrightarrow>
        i < m \<and> (\<exists>e. snd (try_body h (m - 1) (items ! (m - 1))) = Inl e) \<and>
        (\<exists>e. snd r = Inl e))"
proof (induction "length items - i" arbitrary: i items tr)
  case 0
  then have "i = length items" by simp
  then have "execute_loop h i items tr = Some (tr, Inr [items])"
    by (subst execute_loop.simps) simp
  then show ?case using \<open>i = length items\<close>
    by (intro exI [of _ "(tr, Inr [items])"] exI [of _ i]) auto
next
  case (Suc n)
  then have lt: "i < length items" by simp
  note ab = Suc.prems(1)
  obtain t r where tb: "try_body h i (items ! i) = (t, r)" by fastforce
  have vt: "visited (tr @ t) = visited tr @ [i]"
    using visited_try_body [of h i "items ! i"] tb by (simp add: visited_append)
  show ?case
  proof (cases r)
    case (Inl e)
    have step: "execute_loop h i items tr = Some (tr @ t, Inl (abort_error e i))"
      using lt tb Inl ab by (subst execute_loop.simps) simp
    show ?thesis using lt vt tb Inl unfolding step
      by (intro exI [of _ "(tr @ t, Inl (abort_error e i))"] exI [of _ "Suc i"]) auto
  next
    case (Inr item')
    let ?items = "items[i := item']"
    have step: "execute_loop h i items tr = execute_loop h (Suc i) ?items (tr @ t)"
      using lt tb Inr by (subst execute_loop.simps) simp
    have n: "n = length ?items - Suc i" using Suc.hyps(2) by simp
    have le: "Suc i \<le> length ?items" using lt by simp
    from Suc.hyps(1) [OF n ab le, of "tr @ t"] obtain r' m where
      m: "execute_loop h (Suc i) ?items (tr @ t) = Some r'" "Suc i \<le> m" "m \<le> length ?items"
         "visited (fst r') = visited (tr @ t) @ [Suc i..<m]"
         "\<forall>k. Suc i \<le> k \<and> Suc k < m \<longrightarrow> (\<exists>v. snd (try_body h k (?items ! k)) = Inr v)"
         "m < length ?items \<longrightarrow>
            Suc i < m \<and> (\<exists>e. snd (try_body h (m - 1) (?items ! (m - 1))) = Inl e) \<and>
            (\<exists>e. snd r' = Inl e)"
      by blast
    have v: "visited (tr @ t) @ [Suc i..<m] = visited tr @ [i..<m]"
      using vt m(2) by (simp add: upt_conv_Cons)
    have same: "?items ! k = items ! k" if "Suc i \<le> k" for k
      using that by simp
    have ok: "\<exists>v. snd (try_body h k (items ! k)) = Inr v" if "i \<le> k" "Suc k < m" for k
    proof (cases "k = i")
      case True
      then show ?thesis using tb Inr by simp
    next
      case False
      then have "Suc i \<le> k" using that(1) by simp
      then show ?thesis using m(5) that(2) same [of k] by auto
    qed
    have last: "i < m \<and> (\<exists>e. snd (try_body h (m - 1) (items ! (m - 1))) = Inl e) \<and>
        (\<exists>e. snd r' = Inl e)" if "m < length items"
    proof -
      from that m(6) have a: "Suc i < m" and
        b: "\<exists>e. snd (try_body h (m - 1) (?items ! (m - 1))) = Inl e" and
        c: "\<exists>e. snd r' = Inl e" by simp_all
      have "Suc i \<le> m - 1" using a by simp
      from same [OF this] b c a show ?thesis by simp
    qed
    show ?thesis unfolding step using m(1,2,3,4) v ok last
      by (intro exI [of _ r'] exI [of _ m]) auto
  qed
qed




section \<open>The handlers under continue-on-failure\<close>

text \<open>
  part_000: an item without a binary payload fails with the \<^verbatim>\<open>NodeOperationError\<close> of line
  136 (node.ts line 158); when the run continues on failure the output is the records of
  the items in order, each a function of its own item and index, and the record of the
  failed item carries the item's \<^verbatim>\<open>json\<close>, the error and its index.
\<close>

lemma missing_binary_recorded:
  assumes k: "k < length items"
    and nb: "binary (items ! k) = None"
    and op: "getNodeParameter h ''operation'' k = Inr ''transcribe''"
    and ty: "getNodeParameter h ''audioInputType'' k = Inr ''binaryFile''"
    and pn: "getNodeParameter h ''binaryPropertyName'' k = Inr p"
    and mo: "getNodeParameter h ''model'' k = Inr m"
  shows "snd (try_body_part_000 h k (items ! k))
           = Inl (NodeOperationError ''No binary data found on item!'' k)
     \<and> snd (try_body h k (items ! k))
           = Inl (NodeOperationError ''No binary data found on item!'' k)
     \<and> (continueOnFail h \<longrightarrow>
          snd (execute_part_000 h items)
            = Inr [concat (map (\<lambda>j. item_records h j (items ! j)) [0..<length items])]
          \<and> item_records h k (items ! k)
            = [\<lparr>json = json (items ! k), binary = None,
                error = Some (NodeOperationError ''No binary data found on item!'' k),
                pairedItem = Some k\<rparr>]
          \<and> (\<forall>x. snd (execute_part_000 h (items[k := x]))
                = Inr [concat (map (\<lambda>j. if j = k then item_records h k x
                                            else item_records h j (items ! j))
                                [0..<length items])]))"
proof -
  have a: "snd (try_body_part_000 h k (items ! k))
           = Inl (NodeOperationError ''No binary data found on item!'' k)"
    using nb op ty pn mo by (simp add: try_body_part_000_def get_parameter_def eff_simps)
  have b: "snd (try_body h k (items ! k))
           = Inl (NodeOperationError ''No binary data found on item!'' k)"
    using nb op ty pn mo by (simp add: try_body_def get_parameter_def eff_simps)
  have run: "snd (execute_part_000 h xs)
      = Inr [concat (map (\<lambda>j. item_records h j (xs ! j)) [0..<length xs])]"
    if "continueOnFail h" for xs
    using loop_part_000_char [of 0 xs h "[]" "[]"] that by (auto simp: execute_part_000_def)
  have rec: "item_records h k (items ! k)
            = [\<lparr>json = json (items ! k), binary = None,
                error = Some (NodeOperationError ''No binary data found on item!'' k),
                pairedItem = Some k\<rparr>]"
    using a by (simp add: item_records_def)
  have other: "snd (execute_part_000 h (items[k := x]))
                = Inr [concat (map (\<lambda>j. if j = k then item_records h k x
                                            else item_records h j (items ! j))
                                [0..<length items])]"
    if c: "continueOnFail h" for x
  proof -
    have eq: "map (\<lambda>j. item_records h j (items[k := x] ! j)) [0..<length items]
        = map (\<lambda>j. if j = k then item_records h k x else item_records h j (items ! j))
            [0..<length items]"
      using k by (intro map_cong) (auto simp: nth_list_update)
    from run [OF c, of "items[k := x]"]
    have "snd (execute_part_000 h (items[k := x]))
        = Inr [concat (map (\<lambda>j. item_records h j (items[k := x] ! j)) [0..<length items])]"
      by simp
    then show ?thesis unfolding eq .
  qed
  show ?thesis using a b run rec other by blast
qed

lemma missing_binary_recorded_example:
  "snd (execute_part_000 (demo_host True) [item_wav, item_without_binary])
     = Inr [[item_wav\<lparr>json := (json item_wav)(''transcription'' \<mapsto> ''text'')\<rparr>,
             \<lparr>json = json item_without_binary, binary = None,
              error = Some (NodeOperationError ''No binary data found on item!'' 1),
              pairedItem = Some 1\<rparr>]]"
proof -
  let ?h = "demo_host True" and ?items = "[item_wav, item_without_binary]"
  have c: "continueOnFail ?h" by (simp add: demo_host_def)
  have "snd (execute_part_000 ?h ?items)
            = Inr [concat (map (\<lambda>j. item_records ?h j (?items ! j)) [0..<length ?items])]
      \<and> item_records ?h 1 (?items ! 1)
            = [\<lparr>json = json (?items ! 1), binary = None,
                error = Some (NodeOperationError ''No binary data found on item!'' 1),
                pairedItem = Some 1\<rparr>]"
    using missing_binary_recorded [of 1 ?items ?h "''data''" "''Xenova/whisper-tiny.en''"] c
    by (simp add: demo_simps)
  moreover have "item_records ?h 0 item_wav
      = [item_wav\<lparr>json := (json item_wav)(''transcription'' \<mapsto> ''text'')\<rparr>]"
    by (simp add: item_records_def try_body_part_000_wav)
  ultimately show ?thesis by (simp add: upt_conv_Cons)
qed

text \<open>
  node.ts: the handler pushes its record onto \<^verbatim>\<open>items\<close>, the list the loop runs over,
  so the loop visits the record as an item. The record has no binary payload and fails
  in its turn; with the host serving an item for every input index this never ends
  (\<open>execute_diverges\<close>). Whatever the host serves, once an item without a binary payload
  is ahead the run has no output: it ends with an error or does not end
  (\<open>no_output_after_missing_binary\<close>).
\<close>

lemma try_body_no_binary:
  assumes "selects_transcription h" "binary item = None"
  shows "\<exists>t. try_body h i item = (t, Inl (NodeOperationError ''No binary data found on item!'' i))"
proof -
  from assms(1) obtain p m where
    "getNodeParameter h ''operation'' i = Inr ''transcribe''"
    "getNodeParameter h ''audioInputType'' i = Inr ''binaryFile''"
    "getNodeParameter h ''binaryPropertyName'' i = Inr p"
    "getNodeParameter h ''model'' i = Inr m"
    unfolding selects_transcription_def by blast
  then show ?thesis using assms(2)
    by (simp add: try_body_def get_parameter_def eff_simps)
qed

lemma execute_loop_diverges:
  assumes "execute_loop h i items tr = Some r"
  shows "\<not> (continueOnFail h \<and> selects_transcription h \<and> serves_every_input h \<and>
            i < length items \<and> (\<forall>j. i \<le> j \<and> j < length items \<longrightarrow> binary (items ! j) = None))"
  apply (rule execute_loop.raw_induct
    [where P = "\<lambda>h i items tr r. \<not> (continueOnFail h \<and> selects_transcription h \<and>
        serves_every_input h \<and> i < length items \<and>
        (\<forall>j. i \<le> j \<and> j < length items \<longrightarrow> binary (items ! j) = None))",
     OF _ assms])
  subgoal premises prems for loop h i items tr r
  proof
    note IH = prems(1) and body = prems(2)
    assume inv: "continueOnFail h \<and> selects_transcription h \<and> serves_every_input h \<and>
            i < length items \<and> (\<forall>j. i \<le> j \<and> j < length items \<longrightarrow> binary (items ! j) = None)"
    then have nb: "binary (items ! i) = None" by simp
    from try_body_no_binary [of h "items ! i" i] inv nb obtain t where
      tb: "try_body h i (items ! i) = (t, Inl (NodeOperationError ''No binary data found on item!'' i))"
      by blast
    have "\<exists>x xs. getInputData h i items = Inr (x # xs)"
    proof (cases "i = 0")
      case True
      then show ?thesis using inv by (cases items) (simp_all add: getInputData_def)
    next
      case False
      then show ?thesis using inv by (simp add: getInputData_def serves_every_input_def)
    qed
    then obtain x xs where gi: "getInputData h i items = Inr (x # xs)" by blast
    let ?items = "items @ [\<lparr>json = json x, binary = None,
        error = Some (NodeOperationError ''No binary data found on item!'' i), pairedItem = Some i\<rparr>]"
    have cf: "continueOnFail h" and lt: "i < length items" using inv by simp_all
    have call: "loop h (Suc i) ?items (tr @ t) = Some r"
      using body unfolding tb gi by (simp only: lt cf if_True prod.case sum.case list.case)
    have "continueOnFail h \<and> selects_transcription h \<and> serves_every_input h \<and>
            Suc i < length ?items \<and>
            (\<forall>j. Suc i \<le> j \<and> j < length ?items \<longrightarrow> binary (?items ! j) = None)"
    proof -
      have "binary (?items ! j) = None" if "Suc i \<le> j" "j < length ?items" for j
      proof (cases "j < length items")
        case True
        then have "?items ! j = items ! j" by (simp add: nth_append)
        moreover have "binary (items ! j) = None" using inv True that(1) by simp
        ultimately show ?thesis by simp
      next
        case False
        then have "j = length items" using that(2) by simp
        then show ?thesis by (simp add: nth_append)
      qed
      then show ?thesis using inv by simp
    qed
    with IH [OF call] show False by blast
  qed
  done

lemma execute_diverges:
  assumes "continueOnFail h" "selects_transcription h" "serves_every_input h"
    and "items \<noteq> []" and "\<forall>item \<in> set items. binary item = None"
  shows "execute h items = None"
proof (rule ccontr)
  assume "execute h items \<noteq> None"
  then obtain r where "execute_loop h 0 items [] = Some r" by (auto simp: execute_def)
  from execute_loop_diverges [OF this] assms show False by auto
qed


lemma execute_loop_pending_failure:
  assumes "execute_loop h i items tr = Some r"
  shows "continueOnFail h \<and> selects_transcription h \<and>
      (\<exists>j. i \<le> j \<and> j < length items \<and> binary (items ! j) = None)
     \<longrightarrow> (\<exists>e. snd r = Inl e)"
  apply (rule execute_loop.raw_induct
    [where P = "\<lambda>h i items tr r. continueOnFail h \<and> selects_transcription h \<and>
        (\<exists>j. i \<le> j \<and> j < length items \<and> binary (items ! j) = None)
        \<longrightarrow> (\<exists>e. snd r = Inl e)",
     OF _ assms])
  subgoal premises prems for loop h i items tr r
  proof
    note IH = prems(1) and body = prems(2)
    assume inv: "continueOnFail h \<and> selects_transcription h \<and>
        (\<exists>j. i \<le> j \<and> j < length items \<and> binary (items ! j) = None)"
    then obtain j where j: "i \<le> j" "j < length items" "binary (items ! j) = None" by blast
    have cf: "continueOnFail h" and st: "selects_transcription h" using inv by simp_all
    have lt: "i < length items" using j by simp
    obtain t res where tb: "try_body h i (items ! i) = (t, res)" by fastforce
    show "\<exists>e. snd r = Inl e"
    proof (cases res)
      case (Inr item')
      then have ij: "i \<noteq> j"
        using try_body_no_binary [OF st, of "items ! i" i] tb j(3) by auto
      have call: "loop h (Suc i) (items[i := item']) (tr @ t) = Some r"
        using body lt tb Inr by simp
      have "Suc i \<le> j \<and> j < length (items[i := item']) \<and> binary (items[i := item'] ! j) = None"
        using j ij by simp
      then show ?thesis using IH [OF call] cf st by blast
    next
      case (Inl err)
      show ?thesis
      proof (cases "getInputData h i items")
        case e: (Inl e')
        then have "r = (tr @ t, Inl e')" using body lt tb Inl cf by simp
        then show ?thesis by simp
      next
        case xs: (Inr xs)
        show ?thesis
        proof (cases xs)
          case Nil
          then have "r = (tr @ t, Inl (TypeError ''Cannot read properties of undefined''))"
            using body lt tb Inl cf xs by simp
          then show ?thesis by simp
        next
          case (Cons first rest)
          let ?items = "items @ [\<lparr>json = json first, binary = None, error = Some err,
              pairedItem = Some i\<rparr>]"
          have call: "loop h (Suc i) ?items (tr @ t) = Some r"
            using body lt tb Inl cf xs Cons by simp
          have "Suc i \<le> length items \<and> length items < length ?items \<and>
              binary (?items ! length items) = None"
            using lt by simp
          then show ?thesis using IH [OF call] cf st by blast
        qed
      qed
    qed
  qed
  done

lemma no_output_after_missing_binary:
  assumes "continueOnFail h" "selects_transcription h"
    and "k < length items" "binary (items ! k) = None"
    and "execute h items = Some r"
  shows "\<exists>e. snd r = Inl e"
  using execute_loop_pending_failure [of h 0 items "[]" r] assms
  by (auto simp: execute_def)


text \<open>
  What both loops do for every host and every list. part_000 (a total function: its loop
  ends on every input) visits the indices \<open>0, ..., m - 1\<close> in this order, each once;
  \<open>m\<close> is the number of items when the run continues on failure; in abort mode every
  item before the last visited one succeeded, and when \<open>m\<close> is less than the number of
  items the last visited item failed and the run ends with an error. node.ts returns in
  abort mode, where it visits and stops in the same way, and, when the host has no input
  but input 0, under continue-on-failure, where \<open>m\<close> is at most one more than the number
  of items.
\<close>

lemma loops_visit_items_in_order:
  "(\<exists>m\<le>length items.
      visited (fst (execute_part_000 h items)) = [0..<m] \<and>
      (continueOnFail h \<longrightarrow> m = length items) \<and>
      (\<not> continueOnFail h \<longrightarrow>
         (\<forall>k. Suc k < m \<longrightarrow> (\<exists>v. snd (try_body_part_000 h k (items ! k)) = Inr v))) \<and>
      (m < length items \<longrightarrow>
         (\<exists>e. snd (try_body_part_000 h (m - 1) (items ! (m - 1))) = Inl e) \<and>
         (\<exists>e. snd (execute_part_000 h items) = Inl e)))
   \<and> (\<not> continueOnFail h \<or> single_input h \<longrightarrow>
        (\<exists>r m. execute h items = Some r \<and> visited (fst r) = [0..<m] \<and>
           m \<le> Suc (length items) \<and>
           (\<not> continueOnFail h \<longrightarrow>
              m \<le> length items \<and>
              (\<forall>k. Suc k < m \<longrightarrow> (\<exists>v. snd (try_body h k (items ! k)) = Inr v)) \<and>
              (m < length items \<longrightarrow>
                 (\<exists>e. snd (try_body h (m - 1) (items ! (m - 1))) = Inl e) \<and>
                 (\<exists>e. snd r = Inl e)))))"
proof -
  from loop_part_000_char [of 0 items h "[]" "[]"] obtain m where
    m: "m \<le> length items"
       "visited (fst (execute_part_000 h items)) = [0..<m]"
       "continueOnFail h \<longrightarrow> m = length items"
       "m < length items \<longrightarrow> (\<exists>e. snd (execute_part_000 h items) = Inl e)"
    by (auto simp: execute_part_000_def visited_Nil)
  have ab: "(\<forall>k. Suc k < m \<longrightarrow> (\<exists>v. snd (try_body_part_000 h k (items ! k)) = Inr v)) \<and>
      (m < length items \<longrightarrow> (\<exists>e. snd (try_body_part_000 h (m - 1) (items ! (m - 1))) = Inl e))"
    if na: "\<not> continueOnFail h"
  proof -
    from loop_part_000_abort [OF na, of 0 items "[]" "[]"] obtain m' where
      m': "visited (fst (execute_part_000 h items)) = [0..<m']"
          "\<forall>k. Suc k < m' \<longrightarrow> (\<exists>v. snd (try_body_part_000 h k (items ! k)) = Inr v)"
          "m' < length items \<longrightarrow>
             (\<exists>e. snd (try_body_part_000 h (m' - 1) (items ! (m' - 1))) = Inl e)"
      by (auto simp: execute_part_000_def visited_Nil)
    have "length [0..<m] = length [0..<m']" using m(2) m'(1) by simp
    then have "m' = m" by simp
    with m' show ?thesis by simp
  qed
  have fail: "\<exists>e. snd (try_body_part_000 h (m - 1) (items ! (m - 1))) = Inl e"
    if "m < length items"
  proof -
    have "\<not> continueOnFail h" using that m(3) by auto
    from ab [OF this] that show ?thesis by simp
  qed
  have part: "\<exists>m\<le>length items.
      visited (fst (execute_part_000 h items)) = [0..<m] \<and>
      (continueOnFail h \<longrightarrow> m = length items) \<and>
      (\<not> continueOnFail h \<longrightarrow>
         (\<forall>k. Suc k < m \<longrightarrow> (\<exists>v. snd (try_body_part_000 h k (items ! k)) = Inr v))) \<and>
      (m < length items \<longrightarrow>
         (\<exists>e. snd (try_body_part_000 h (m - 1) (items ! (m - 1))) = Inl e) \<and>
         (\<exists>e. snd (execute_part_000 h items) = Inl e))"
    using m ab fail by (intro exI [of _ m]) simp
  have node: "\<exists>r m. execute h items = Some r \<and> visited (fst r) = [0..<m] \<and>
           m \<le> Suc (length items) \<and>
           (\<not> continueOnFail h \<longrightarrow>
              m \<le> length items \<and>
              (\<forall>k. Suc k < m \<longrightarrow> (\<exists>v. snd (try_body h k (items ! k)) = Inr v)) \<and>
              (m < length items \<longrightarrow>
                 (\<exists>e. snd (try_body h (m - 1) (items ! (m - 1))) = Inl e) \<and>
                 (\<exists>e. snd r = Inl e)))"
    if h: "\<not> continueOnFail h \<or> single_input h"
  proof (cases "continueOnFail h")
    case True
    from execute_char [OF h, of items] obtain r m where
      "execute h items = Some r" "visited (fst r) = [0..<m]" "m \<le> Suc (length items)"
      by blast
    then show ?thesis using True by blast
  next
    case False
    have "0 \<le> length items" by simp
    from loop_abort [OF False this, of "[]"] obtain r m where
      r: "execute_loop h 0 items [] = Some r" "m \<le> length items"
         "visited (fst r) = visited [] @ [0..<m]"
         "\<forall>k. 0 \<le> k \<and> Suc k < m \<longrightarrow> (\<exists>v. snd (try_body h k (items ! k)) = Inr v)"
         "m < length items \<longrightarrow>
            0 < m \<and> (\<exists>e. snd (try_body h (m - 1) (items ! (m - 1))) = Inl e) \<and>
            (\<exists>e. snd r = Inl e)"
      by blast
    then show ?thesis using False
      by (intro exI [of _ r] exI [of _ m]) (simp add: execute_def visited_Nil)
  qed
  from part node show ?thesis by blast
qed



section \<open>The claims\<close>

text \<open>
  C1. The claim: for a stereo buffer with channels of equal length \<open>n\<close> the step yields
  a sequence of length \<open>n\<close> whose sample \<open>i\<close> is \<open>sqrt 2 * (left[i] + right[i]) / 2\<close>
  for every \<open>i < n\<close>. The loop runs to the number of channels, not of samples: on
  three equal samples per channel the third output sample is the left channel's \<open>1\<close>,
  not \<open>sqrt 2\<close>.
\<close>

theorem downmix_stereo_third_sample_unmixed:
  "downmix (Channels [[Num 1, Num 1, Num 1], [Num 1, Num 1, Num 1]])
     = Inr (Some [Num (sqrt 2), Num (sqrt 2), Num 1])
   \<and> Num 1 \<noteq> Num (sqrt 2 * (1 + 1) / 2)"
  by (simp add: downmix_def downmix_loop.simps typed_get_def typed_set_def SCALING_FACTOR_def)

text \<open>
  C2. The claim: \<^verbatim>\<open>execute\<close> ends in both modes, abort on the first item failure and
  continue-on-failure, and processes each original input item exactly once. Under
  continue-on-failure, on three items of which the second has no binary payload,
  node.ts visits the indices 0 and 1 and ends with the \<^verbatim>\<open>TypeError\<close> its own handler
  throws at \<^verbatim>\<open>this.getInputData(1)[0].json\<close>: the third item is never processed and
  nothing is emitted. part_000 visits 0, 1 and 2 and emits the three records.
\<close>

theorem execute_continue_skips_third_item:
  "execute (demo_host True) [item_wav, item_without_binary, item_wav]
     = Some ([GetNodeParameter ''operation'' 0, GetNodeParameter ''audioInputType'' 0,
              GetNodeParameter ''binaryPropertyName'' 0, GetNodeParameter ''model'' 0,
              LoadPipeline ''Xenova/whisper-tiny.en'',
              NewWaveFile [1, 2, 3], ToBitDepth ''32f'', ToSampleRate 16000, GetSamples,
              Transcribe (Some [Num 0]),
              GetNodeParameter ''operation'' 1, GetNodeParameter ''audioInputType'' 1,
              GetNodeParameter ''binaryPropertyName'' 1, GetNodeParameter ''model'' 1],
             Inl (TypeError ''Cannot read properties of undefined''))
   \<and> visited [GetNodeParameter ''operation'' 0, GetNodeParameter ''audioInputType'' 0,
              GetNodeParameter ''binaryPropertyName'' 0, GetNodeParameter ''model'' 0,
              LoadPipeline ''Xenova/whisper-tiny.en'',
              NewWaveFile [1, 2, 3], ToBitDepth ''32f'', ToSampleRate 16000, GetSamples,
              Transcribe (Some [Num 0]),
              GetNodeParameter ''operation'' 1, GetNodeParameter ''audioInputType'' 1,
              GetNodeParameter ''binaryPropertyName'' 1, GetNodeParameter ''model'' 1] = [0, 1]
   \<and> visited (fst (execute_part_000 (demo_host True) [item_wav, item_without_binary, item_wav]))
       = [0, 1, 2]
   \<and> snd (execute_part_000 (demo_host True) [item_wav, item_without_binary, item_wav])
       = Inr [[item_wav\<lparr>json := (json item_wav)(''transcription'' \<mapsto> ''text'')\<rparr>,
               \<lparr>json = json item_without_binary, binary = None,
                error = Some (NodeOperationError ''No binary data found on item!'' 1),
                pairedItem = Some 1\<rparr>,
               item_wav\<lparr>json := (json item_wav)(''transcription'' \<mapsto> ''text'')\<rparr>]]"
proof -
  have a: "execute (demo_host True) [item_wav, item_without_binary, item_wav]
     = Some ([GetNodeParameter ''operation'' 0, GetNodeParameter ''audioInputType'' 0,
              GetNodeParameter ''binaryPropertyName'' 0, GetNodeParameter ''model'' 0,
              LoadPipeline ''Xenova/whisper-tiny.en'',
              NewWaveFile [1, 2, 3], ToBitDepth ''32f'', ToSampleRate 16000, GetSamples,
              Transcribe (Some [Num 0]),
              GetNodeParameter ''operation'' 1, GetNodeParameter ''audioInputType'' 1,
              GetNodeParameter ''binaryPropertyName'' 1, GetNodeParameter ''model'' 1],
             Inl (TypeError ''Cannot read properties of undefined''))"
    by (simp add: execute_def execute_loop.simps try_body_def get_parameter_def eff_simps
        demo_simps getInputData_def prepare_wav_buffer_def is_mp3_def load_samples_def
        transcribe_samples_def downmix_def)
  have b: "visited [GetNodeParameter ''operation'' 0, GetNodeParameter ''audioInputType'' 0,
              GetNodeParameter ''binaryPropertyName'' 0, GetNodeParameter ''model'' 0,
              LoadPipeline ''Xenova/whisper-tiny.en'',
              NewWaveFile [1, 2, 3], ToBitDepth ''32f'', ToSampleRate 16000, GetSamples,
              Transcribe (Some [Num 0]),
              GetNodeParameter ''operation'' 1, GetNodeParameter ''audioInputType'' 1,
              GetNodeParameter ''binaryPropertyName'' 1, GetNodeParameter ''model'' 1] = [0, 1]"
    by (simp add: visited_def)
  have run: "execute_part_000 (demo_host True) [item_wav, item_without_binary, item_wav]
     = (fst (try_body_part_000 (demo_host True) 0 item_wav)
          @ fst (try_body_part_000 (demo_host True) 1 item_without_binary)
          @ fst (try_body_part_000 (demo_host True) 2 item_wav),
        Inr [[item_wav\<lparr>json := (json item_wav)(''transcription'' \<mapsto> ''text'')\<rparr>,
               \<lparr>json = json item_without_binary, binary = None,
                error = Some (NodeOperationError ''No binary data found on item!'' 1),
                pairedItem = Some 1\<rparr>,
               item_wav\<lparr>json := (json item_wav)(''transcription'' \<mapsto> ''text'')\<rparr>]])"
    by (simp add: execute_part_000_def execute_loop_part_000.simps
        try_body_part_000_without_binary try_body_part_000_wav)
      (simp add: demo_host_def)
  have c: "visited (fst (execute_part_000 (demo_host True)
             [item_wav, item_without_binary, item_wav])) = [0, 1, 2]"
    unfolding run by (simp add: visited_append visited_try_body_part_000)
  from a b c run show ?thesis by simp
qed

text \<open>
  C3. The claim: a buffer with more than two channels fails with an error. It does not:
  three one-sample channels give a one-sample sequence, with no error.
\<close>

theorem downmix_three_channels_returns:
  "downmix (Channels [[Num 1], [Num 1], [Num 1]]) = Inr (Some [Num (sqrt 2)])"
  by (simp add: downmix_def downmix_loop.simps typed_get_def typed_set_def SCALING_FACTOR_def)

text \<open>
  C3, as amended: for more than two channels the step throws nothing; it returns a
  sequence as long as channel 0, and the transcriber is called with it.
\<close>

theorem downmix_more_than_two_channels:
  assumes "2 < length chs"
  shows "\<exists>out. downmix (Channels chs) = Inr (Some out) \<and> length out = length (chs ! 0) \<and>
     transcribe_samples h t opts (Channels chs)
       = ([Transcribe (Some out)], transcriber h t (Some out) opts)"
proof -
  from assms obtain ch0 ch1 rest where chs: "chs = ch0 # ch1 # rest"
    by (cases chs; cases "tl chs") auto
  from downmix_channels [of ch0 ch1 rest] obtain c where
    "downmix (Channels chs) = Inr (Some c)" "length c = length ch0" using chs by auto
  then show ?thesis using chs by (auto simp: transcribe_samples_def call_def)
qed

theorem downmix_more_than_two_channels_witness:
  "\<exists>out. downmix (Channels [[Num 1, Num 0], [Num 1, Num 0], [Num 1, Num 0]]) = Inr (Some out)
     \<and> length out = 2"
proof -
  have "2 < length [[Num 1, Num 0], [Num 1, Num 0], [Num 1, Num 0]]" by simp
  from downmix_more_than_two_channels [OF this, of "demo_host True" "()" None]
  show ?thesis by auto
qed

text \<open>
  C4. The claim: an item without a binary payload fails, and under continue-on-failure
  the run emits for it a record with the item's \<^verbatim>\<open>json\<close>, the error and
  \<^verbatim>\<open>pairedItem\<close>, the other items unaffected. On a first item with a payload and a
  second without, node.ts ends with a \<^verbatim>\<open>TypeError\<close> thrown by its own handler, which
  reads \<^verbatim>\<open>this.getInputData(1)[0].json\<close>, and emits nothing; part_000, whose handler
  reads \<^verbatim>\<open>items[itemIndex].json\<close>, emits the transcribed first item and the record.
\<close>

theorem execute_continue_missing_binary:
  "execute (demo_host True) [item_wav, item_without_binary]
     = Some ([GetNodeParameter ''operation'' 0, GetNodeParameter ''audioInputType'' 0,
              GetNodeParameter ''binaryPropertyName'' 0, GetNodeParameter ''model'' 0,
              LoadPipeline ''Xenova/whisper-tiny.en'',
              NewWaveFile [1, 2, 3], ToBitDepth ''32f'', ToSampleRate 16000, GetSamples,
              Transcribe (Some [Num 0]),
              GetNodeParameter ''operation'' 1, GetNodeParameter ''audioInputType'' 1,
              GetNodeParameter ''binaryPropertyName'' 1, GetNodeParameter ''model'' 1],
             Inl (TypeError ''Cannot read properties of undefined''))
   \<and> snd (execute_part_000 (demo_host True) [item_wav, item_without_binary])
     = Inr [[item_wav\<lparr>json := (json item_wav)(''transcription'' \<mapsto> ''text'')\<rparr>,
             \<lparr>json = json item_without_binary, binary = None,
              error = Some (NodeOperationError ''No binary data found on item!'' 1),
              pairedItem = Some 1\<rparr>]]"
proof -
  have a: "execute (demo_host True) [item_wav, item_without_binary]
     = Some ([GetNodeParameter ''operation'' 0, GetNodeParameter ''audioInputType'' 0,
              GetNodeParameter ''binaryPropertyName'' 0, GetNodeParameter ''model'' 0,
              LoadPipeline ''Xenova/whisper-tiny.en'',
              NewWaveFile [1, 2, 3], ToBitDepth ''32f'', ToSampleRate 16000, GetSamples,
              Transcribe (Some [Num 0]),
              GetNodeParameter ''operation'' 1, GetNodeParameter ''audioInputType'' 1,
              GetNodeParameter ''binaryPropertyName'' 1, GetNodeParameter ''model'' 1],
             Inl (TypeError ''Cannot read properties of undefined''))"
    by (simp add: execute_def execute_loop.simps try_body_def get_parameter_def eff_simps
        demo_simps getInputData_def prepare_wav_buffer_def is_mp3_def load_samples_def
        transcribe_samples_def downmix_def)
  have b: "snd (execute_part_000 (demo_host True) [item_wav, item_without_binary])
     = Inr [[item_wav\<lparr>json := (json item_wav)(''transcription'' \<mapsto> ''text'')\<rparr>,
             \<lparr>json = json item_without_binary, binary = None,
              error = Some (NodeOperationError ''No binary data found on item!'' 1),
              pairedItem = Some 1\<rparr>]]"
    by (simp add: execute_part_000_def execute_loop_part_000.simps
        try_body_part_000_without_binary try_body_part_000_wav)
      (simp add: demo_host_def)
  from a b show ?thesis by simp
qed

text \<open>
  C5. The claim: when the engine fails or emits nothing usable, the adapter fails with an
  error whose message includes the engine's captured standard error verbatim. The
  message is \<^verbatim>\<open>Conversion failed: \<close> and the engine error's own message. With an engine
  error whose message carries the last line of the standard error after the exit code,
  and a standard error of three lines, the adapter's message includes that last line
  and not the standard error as it was captured; the whole of it goes to the error log.
\<close>

theorem transcode_message_lacks_stderr:
  "transcode
     ((demo_host True)\<lparr>ffmpeg := \<lambda>cmd buffer.
        FfError ''ffmpeg exited with code 1: pipe:0: Invalid data found when processing input''
          ''''
          (''ffmpeg version 4.4'' @ [CHR 0x0A] @ ''  built with gcc 11'' @ [CHR 0x0A]
             @ ''pipe:0: Invalid data found when processing input'')\<rparr>)
     0 [1, 2, 3]
   = ([RunFfmpeg transcode_command [1, 2, 3], LoggerError ''Std out: '',
       LoggerError (''Std err: '' @ ''ffmpeg version 4.4'' @ [CHR 0x0A] @ ''  built with gcc 11''
          @ [CHR 0x0A] @ ''pipe:0: Invalid data found when processing input'')],
      Inl (JsError ''NodeOperationError''
             ''Conversion failed: ffmpeg exited with code 1: pipe:0: Invalid data found when processing input''
             (Some (Some 0))))
   \<and> \<not> str_includes
          ''Conversion failed: ffmpeg exited with code 1: pipe:0: Invalid data found when processing input''
          (''ffmpeg version 4.4'' @ [CHR 0x0A] @ ''  built with gcc 11'' @ [CHR 0x0A]
             @ ''pipe:0: Invalid data found when processing input'')
   \<and> str_includes
          ''Conversion failed: ffmpeg exited with code 1: pipe:0: Invalid data found when processing input''
          ''pipe:0: Invalid data found when processing input''"
  by (simp add: transcode_def demo_host_def NodeOperationError_def)

text \<open>
  C5, as amended: on the engine's \<^verbatim>\<open>error\<close> event the adapter writes the captured
  standard output and standard error, whole, to the error log and fails with a
  \<^verbatim>\<open>NodeOperationError\<close> for the item whose message is \<^verbatim>\<open>Conversion failed: \<close> followed by
  the engine error's message, so that the message includes every text the engine
  error's message includes; on \<^verbatim>\<open>end\<close> it returns the chunks concatenated, whatever
  they are. An item of node.ts that reaches the format test with an MP3 payload fails
  with that same error.
\<close>

theorem transcode_outcome:
  "(ffmpeg h transcode_command buffer = FfError msg out err \<longrightarrow>
      transcode h itemIndex buffer
        = ([RunFfmpeg transcode_command buffer, LoggerError (''Std out: '' @ out),
            LoggerError (''Std err: '' @ err)],
           Inl (JsError ''NodeOperationError'' (''Conversion failed: '' @ msg)
                  (Some (Some itemIndex)))))
   \<and> (ffmpeg h transcode_command buffer = FfEnd chunks \<longrightarrow>
      transcode h itemIndex buffer = ([RunFfmpeg transcode_command buffer], Inr (concat chunks)))
   \<and> (getNodeParameter h ''operation'' itemIndex = Inr ''transcribe'' \<and>
      getNodeParameter h ''audioInputType'' itemIndex = Inr ''binaryFile'' \<and>
      getNodeParameter h ''binaryPropertyName'' itemIndex = Inr p \<and>
      getNodeParameter h ''model'' itemIndex = Inr m \<and>
      binary item = Some bin \<and> bin p = Some b \<and> data b = Base64 s \<and> pipeline h m = Inr t \<and>
      is_mp3 b \<and> buffer = Buffer_from_base64 h s \<and>
      ffmpeg h transcode_command buffer = FfError msg out err \<longrightarrow>
        snd (try_body h itemIndex item)
          = Inl (JsError ''NodeOperationError'' (''Conversion failed: '' @ msg)
                  (Some (Some itemIndex)))
        \<and> LoggerError (''Std err: '' @ err) \<in> set (fst (try_body h itemIndex item)))
   \<and> (\<forall>part. str_includes msg part \<longrightarrow> str_includes (''Conversion failed: '' @ msg) part)
   \<and> str_includes (''Std out: '' @ out) out \<and> str_includes (''Std err: '' @ err) err"
proof -
  have a: "transcode h itemIndex buffer
        = ([RunFfmpeg transcode_command buffer, LoggerError (''Std out: '' @ out),
            LoggerError (''Std err: '' @ err)],
           Inl (JsError ''NodeOperationError'' (''Conversion failed: '' @ msg)
                  (Some (Some itemIndex))))"
    if "ffmpeg h transcode_command buffer = FfError msg out err"
    using that by (simp add: transcode_def NodeOperationError_def)
  have b: "transcode h itemIndex buffer
        = ([RunFfmpeg transcode_command buffer], Inr (concat chunks))"
    if "ffmpeg h transcode_command buffer = FfEnd chunks"
    using that by (simp add: transcode_def)
  have c: "snd (try_body h itemIndex item)
          = Inl (JsError ''NodeOperationError'' (''Conversion failed: '' @ msg)
                  (Some (Some itemIndex)))
        \<and> LoggerError (''Std err: '' @ err) \<in> set (fst (try_body h itemIndex item))"
    if r: "getNodeParameter h ''operation'' itemIndex = Inr ''transcribe''"
      "getNodeParameter h ''audioInputType'' itemIndex = Inr ''binaryFile''"
      "getNodeParameter h ''binaryPropertyName'' itemIndex = Inr p"
      "getNodeParameter h ''model'' itemIndex = Inr m"
      "binary item = Some bin" "bin p = Some b" "data b = Base64 s" "pipeline h m = Inr t"
      and mp3: "is_mp3 b" and buf: "buffer = Buffer_from_base64 h s"
      and e: "ffmpeg h transcode_command buffer = FfError msg out err"
  proof -
    have "prepare_wav_buffer h itemIndex b (Buffer_from_base64 h s)
        = ([RunFfmpeg transcode_command buffer, LoggerError (''Std out: '' @ out),
            LoggerError (''Std err: '' @ err)],
           Inl (JsError ''NodeOperationError'' (''Conversion failed: '' @ msg)
                  (Some (Some itemIndex))))"
      using a [OF e] mp3 buf by (simp add: prepare_wav_buffer_def)
    then show ?thesis
      using try_body_reach [OF r] by (simp add: Let_def and_then_pair)
  qed
  have d: "str_includes (p @ x) part" if "str_includes x part" for p x part
  proof -
    from that obtain q r where "x = q @ part @ r" by (auto simp: str_includes_iff)
    then have "p @ x = (p @ q) @ part @ r" by simp
    then show ?thesis unfolding str_includes_iff by blast
  qed
  have e: "str_includes x x" for x
  proof -
    have "x = [] @ x @ []" by simp
    then show ?thesis unfolding str_includes_iff by blast
  qed
  have f: "str_includes (''Std out: '' @ out) out" "str_includes (''Std err: '' @ err) err"
    using d [OF e] by blast+
  from a b c d f show ?thesis by blast
qed

theorem transcode_outcome_witness:
  "transcode
     ((demo_host True)\<lparr>ffmpeg := \<lambda>cmd buffer. FfError ''exit 1'' ''out'' ''err''\<rparr>) 7 [1, 2, 3]
   = ([RunFfmpeg transcode_command [1, 2, 3], LoggerError ''Std out: out'',
       LoggerError ''Std err: err''],
      Inl (JsError ''NodeOperationError'' ''Conversion failed: exit 1'' (Some (Some 7))))
   \<and> transcode (demo_host True) 7 [1, 2, 3]
   = ([RunFfmpeg transcode_command [1, 2, 3]], Inr [4, 5, 6])
   \<and> snd (try_body
        ((demo_host True)\<lparr>ffmpeg := \<lambda>cmd buffer. FfError ''exit 1'' ''out'' ''err''\<rparr>)
        7 item_mp3)
   = Inl (JsError ''NodeOperationError'' ''Conversion failed: exit 1'' (Some (Some 7)))"
proof -
  let ?h = "(demo_host True)\<lparr>ffmpeg := \<lambda>cmd buffer. FfError ''exit 1'' ''out'' ''err''\<rparr>"
  let ?mp3 = "\<lparr>data = Base64 ''SUQz'', mimeType = ''audio/mpeg'', fileExtension = None\<rparr>"
  have e: "ffmpeg ?h transcode_command [1, 2, 3] = FfError ''exit 1'' ''out'' ''err''"
    by simp
  have f: "ffmpeg (demo_host True) transcode_command [1, 2, 3] = FfEnd [[4, 5], [6]]"
    by (simp add: demo_host_def)
  have r: "getNodeParameter ?h ''operation'' 7 = Inr ''transcribe''"
    "getNodeParameter ?h ''audioInputType'' 7 = Inr ''binaryFile''"
    "getNodeParameter ?h ''binaryPropertyName'' 7 = Inr ''data''"
    "getNodeParameter ?h ''model'' 7 = Inr ''Xenova/whisper-tiny.en''"
    "binary item_mp3 = Some [''data'' \<mapsto> ?mp3]" "[''data'' \<mapsto> ?mp3] ''data'' = Some ?mp3"
    "data ?mp3 = Base64 ''SUQz''" "pipeline ?h ''Xenova/whisper-tiny.en'' = Inr ()"
    "is_mp3 ?mp3" "[1, 2, 3] = Buffer_from_base64 ?h ''SUQz''"
    by (simp_all add: demo_simps is_mp3_def)
  from transcode_outcome
         [of ?h "[1, 2, 3]" "''exit 1''" "''out''" "''err''" 7 _ "''data''"
            "''Xenova/whisper-tiny.en''" item_mp3 "[''data'' \<mapsto> ?mp3]" ?mp3 "''SUQz''" "()"]
       e r
  have 1: "transcode ?h 7 [1, 2, 3]
      = ([RunFfmpeg transcode_command [1, 2, 3], LoggerError ''Std out: out'',
          LoggerError ''Std err: err''],
         Inl (JsError ''NodeOperationError'' ''Conversion failed: exit 1'' (Some (Some 7))))"
    and 2: "snd (try_body ?h 7 item_mp3)
      = Inl (JsError ''NodeOperationError'' ''Conversion failed: exit 1'' (Some (Some 7)))"
    by simp_all
  from transcode_outcome [of "demo_host True" "[1, 2, 3]" _ _ _ 7 "[[4, 5], [6]]"] f
  have 3: "transcode (demo_host True) 7 [1, 2, 3]
      = ([RunFfmpeg transcode_command [1, 2, 3]], Inr [4, 5, 6])"
    by simp
  from 1 2 3 show ?thesis by simp
qed

text \<open>
  C6. The claim: every sample of the result lies in \<open>[-1, 1]\<close>. Two full-scale channels
  give \<open>sqrt 2\<close>.
\<close>

theorem downmix_full_scale_exceeds_one:
  "downmix (Channels [[Num 1], [Num 1]]) = Inr (Some [Num (sqrt 2)])
   \<and> sample_within 1 (Num 1) \<and> \<not> sample_within 1 (Num (sqrt 2))"
  by (simp add: downmix_def downmix_loop.simps typed_get_def typed_set_def SCALING_FACTOR_def
      sample_within_def)

text \<open>
  C6, as amended: when the channels the step receives have equal length and samples in
  \<open>[-1, 1]\<close>, every sample of the result lies in \<open>[-sqrt 2, sqrt 2]\<close>, and in \<open>[-1, 1]\<close>
  for a one-channel buffer.
\<close>

theorem downmix_samples_bounded:
  assumes eq: "\<forall>c \<in> set (channels_of a).
                 length c = length (hd (channels_of a)) \<and> (\<forall>x \<in> set c. sample_within 1 x)"
    and out: "downmix a = Inr (Some out)"
  shows "(\<forall>x \<in> set out. sample_within (sqrt 2) x)
     \<and> (\<forall>s. a = Flat s \<longrightarrow> (\<forall>x \<in> set out. sample_within 1 x))"
proof (cases a)
  case (Flat s)
  then have "out = s" using out by (simp add: downmix_def)
  then show ?thesis using eq Flat by (auto simp: channels_of_def intro: sample_within_mono)
next
  case (Channels chs)
  show ?thesis
  proof (cases chs)
    case Nil
    then show ?thesis using out Channels by (simp add: downmix_def)
  next
    case (Cons ch0 t)
    show ?thesis
    proof (cases t)
      case Nil
      then have "downmix a = Inl (TypeError ''Cannot read properties of undefined'')"
        using Channels Cons by (simp add: downmix_def downmix_loop.simps)
      then show ?thesis using out by simp
    next
      case (Cons ch1 rest)
      with \<open>chs = ch0 # t\<close> have chs: "chs = ch0 # ch1 # rest" by simp
      from downmix_channels [of ch0 ch1 rest] out Channels chs
      have len: "length out = length ch0" and
        nth: "\<forall>j < length ch0. out ! j =
          (if j < Suc (Suc (length rest))
           then js_div (js_mul SCALING_FACTOR (js_add (ch0 ! j) (typed_get ch1 j))) (Num 2)
           else ch0 ! j)" by auto
      have l1: "length ch1 = length ch0" using eq Channels chs by (simp add: channels_of_def)
      have w0: "\<forall>x \<in> set ch0. sample_within 1 x" and w1: "\<forall>x \<in> set ch1. sample_within 1 x"
        using eq Channels chs by (simp_all add: channels_of_def)
      have "sample_within (sqrt 2) (out ! j)" if j: "j < length out" for j
      proof -
        have a0: "sample_within 1 (ch0 ! j)" using w0 j len by simp
        have a1: "sample_within 1 (typed_get ch1 j)" using w1 j len l1 by (simp add: typed_get_def)
        show ?thesis using nth j len mix_bound [OF a0 a1] sample_within_mono [OF a0] by simp
      qed
      then have "\<forall>x \<in> set out. sample_within (sqrt 2) x" by (auto simp: in_set_conv_nth)
      then show ?thesis using Channels by simp
    qed
  qed
qed

theorem downmix_samples_bounded_witness:
  "downmix (Channels [[Num 1], [Num (- 1)]]) = Inr (Some [Num 0])
   \<and> sample_within (sqrt 2) (Num 0)"
proof -
  have ev: "downmix (Channels [[Num 1], [Num (- 1)]]) = Inr (Some [Num 0])"
    by (simp add: downmix_def downmix_loop.simps typed_get_def typed_set_def SCALING_FACTOR_def)
  have hyp: "\<forall>c \<in> set (channels_of (Channels [[Num 1], [Num (- 1)]])).
       length c = length (hd (channels_of (Channels [[Num 1], [Num (- 1)]])))
       \<and> (\<forall>x \<in> set c. sample_within 1 x)"
    by (simp add: channels_of_def sample_within_def)
  from downmix_samples_bounded [OF hyp ev] have "sample_within (sqrt 2) (Num 0)" by simp
  with ev show ?thesis by simp
qed

text \<open>
  C7. For an item of node.ts that reaches the format test (the parameters select the
  transcription of a binary file, the binary property is there with string data, the
  model loads): the engine is run exactly when the MIME type is \<^verbatim>\<open>audio/mpeg\<close> or
  \<^verbatim>\<open>audio/mp3\<close> or the extension is \<^verbatim>\<open>mp3\<close>, then on the decoded buffer; any other
  item has its decoded buffer handed to the wavefile constructor as it is.
\<close>

theorem transcoder_invoked_iff_mp3:
  assumes "getNodeParameter h ''operation'' i = Inr ''transcribe''"
    and "getNodeParameter h ''audioInputType'' i = Inr ''binaryFile''"
    and "getNodeParameter h ''binaryPropertyName'' i = Inr p"
    and "getNodeParameter h ''model'' i = Inr m"
    and "binary item = Some bin" and "bin p = Some b" and "data b = Base64 s"
    and "pipeline h m = Inr t"
  shows "((\<exists>cmd buf. RunFfmpeg cmd buf \<in> set (fst (try_body h i item))) \<longleftrightarrow>
            mimeType b = ''audio/mpeg'' \<or> mimeType b = ''audio/mp3'' \<or> fileExtension b = Some ''mp3'')
     \<and> (mimeType b = ''audio/mpeg'' \<or> mimeType b = ''audio/mp3'' \<or> fileExtension b = Some ''mp3''
          \<longrightarrow> RunFfmpeg transcode_command (Buffer_from_base64 h s) \<in> set (fst (try_body h i item)))
     \<and> (\<not> (mimeType b = ''audio/mpeg'' \<or> mimeType b = ''audio/mp3'' \<or> fileExtension b = Some ''mp3'')
          \<longrightarrow> NewWaveFile (Buffer_from_base64 h s) \<in> set (fst (try_body h i item)))"
proof -
  let ?buf = "Buffer_from_base64 h s"
  let ?k = "\<lambda>audioBufferWav.
                 and_then (load_samples h audioBufferWav) (\<lambda>audioData.
                 and_then (transcribe_samples h t None audioData) (\<lambda>result.
                 ret (item\<lparr>json := (json item)(''transcription'' \<mapsto> result)\<rparr>)))"
  have tr: "fst (try_body h i item) =
     [GetNodeParameter ''operation'' i, GetNodeParameter ''audioInputType'' i,
      GetNodeParameter ''binaryPropertyName'' i, GetNodeParameter ''model'' i, LoadPipeline m]
     @ fst (and_then (prepare_wav_buffer h i b ?buf) ?k)"
    using try_body_reach [OF assms] by (simp add: Let_def)
  have nok: "RunFfmpeg cmd buf \<notin> set (fst (?k x))" for cmd buf x
    using no_ffmpeg_load_samples [of cmd buf h x]
          no_ffmpeg_transcribe [of cmd buf h t None]
    by (auto simp: fst_and_then ret_def split: sum.splits)
  have mp3: "is_mp3 b \<longleftrightarrow>
      mimeType b = ''audio/mpeg'' \<or> mimeType b = ''audio/mp3'' \<or> fileExtension b = Some ''mp3''"
    by (simp add: is_mp3_def)
  have a: "(\<exists>cmd buf. RunFfmpeg cmd buf \<in> set (fst (try_body h i item))) \<longleftrightarrow> is_mp3 b"
    using prepare_wav_buffer_ffmpeg [of h i b ?buf] nok
    by (auto simp: tr fst_and_then split: sum.splits)
  have b: "RunFfmpeg transcode_command ?buf \<in> set (fst (try_body h i item))" if "is_mp3 b"
    using that
    by (auto simp: tr fst_and_then prepare_wav_buffer_def transcode_def
        split: sum.splits ffmpeg_outcome.splits)
  have c: "NewWaveFile ?buf \<in> set (fst (try_body h i item))" if "\<not> is_mp3 b"
  proof -
    have "prepare_wav_buffer h i b ?buf = ([], Inr ?buf)"
      using that by (simp add: prepare_wav_buffer_def ret_def)
    moreover have "NewWaveFile ?buf \<in> set (fst (load_samples h ?buf))"
      by (auto simp: load_samples_def eff_simps split: sum.splits)
    ultimately show ?thesis by (auto simp: tr fst_and_then split: sum.splits)
  qed
  show ?thesis using a b c unfolding mp3 by blast
qed

theorem transcoder_invoked_iff_mp3_witness:
  "RunFfmpeg transcode_command [1, 2, 3] \<in> set (fst (try_body (demo_host True) 0 item_mp3))
   \<and> NewWaveFile [1, 2, 3] \<in> set (fst (try_body (demo_host True) 0 item_wav))
   \<and> \<not> (\<exists>cmd buf. RunFfmpeg cmd buf \<in> set (fst (try_body (demo_host True) 0 item_wav)))"
proof -
  let ?h = "demo_host True"
  let ?mp3 = "\<lparr>data = Base64 ''SUQz'', mimeType = ''audio/mpeg'', fileExtension = None\<rparr>"
  let ?wav = "\<lparr>data = Base64 ''UklGRg=='', mimeType = ''audio/wav'',
                fileExtension = Some ''wav''\<rparr>"
  have p: "getNodeParameter ?h ''operation'' 0 = Inr ''transcribe''"
    "getNodeParameter ?h ''audioInputType'' 0 = Inr ''binaryFile''"
    "getNodeParameter ?h ''binaryPropertyName'' 0 = Inr ''data''"
    "getNodeParameter ?h ''model'' 0 = Inr ''Xenova/whisper-tiny.en''"
    "pipeline ?h ''Xenova/whisper-tiny.en'' = Inr ()"
    by (simp_all add: demo_simps)
  have m: "binary item_mp3 = Some [''data'' \<mapsto> ?mp3]" "[''data'' \<mapsto> ?mp3] ''data'' = Some ?mp3"
    "data ?mp3 = Base64 ''SUQz''"
    by (simp_all add: item_mp3_def)
  have w: "binary item_wav = Some [''data'' \<mapsto> ?wav]" "[''data'' \<mapsto> ?wav] ''data'' = Some ?wav"
    "data ?wav = Base64 ''UklGRg==''"
    by (simp_all add: item_wav_def)
  have buf: "Buffer_from_base64 ?h s = [1, 2, 3]" for s by (simp add: demo_host_def)
  from transcoder_invoked_iff_mp3 [OF p(1-4) m p(5)]
       transcoder_invoked_iff_mp3 [OF p(1-4) w p(5)]
  show ?thesis by (simp add: buf)
qed

text \<open>
  C8. For a one-channel buffer, which \<^verbatim>\<open>getSamples\<close> returns as one typed array, the
  step returns the samples as they are, and the transcriber is called with them.
\<close>

theorem downmix_mono_identity:
  "downmix (Flat samples) = Inr (Some samples) \<and>
   transcribe_samples h t opts (Flat samples)
     = ([Transcribe (Some samples)], transcriber h t (Some samples) opts)"
  by (simp add: downmix_def transcribe_samples_def call_def)



text \<open>
  C10. When the adapter returns bytes, it has run the engine once, with the command
  \<^verbatim>\<open>format wav, codec pcm_s16le, frequency 16000, channels 1\<close>, and the bytes are what
  the engine emitted for this command: whatever encoding the engine gives the output
  for a command, the adapter's output has it for this one.
\<close>

theorem transcode_requests_pcm_s16le_16000_mono:
  assumes "transcode h itemIndex buffer = (tr, Inr out)"
  shows "tr = [RunFfmpeg \<lparr>format = ''wav'', audioCodec = ''pcm_s16le'', audioFrequency = 16000,
                  audioChannels = 1\<rparr> buffer] \<and>
     (\<exists>chunks. ffmpeg h \<lparr>format = ''wav'', audioCodec = ''pcm_s16le'', audioFrequency = 16000,
                  audioChannels = 1\<rparr> buffer = FfEnd chunks \<and> out = concat chunks) \<and>
     (\<forall>encoded. (\<forall>cmd inp chunks. ffmpeg h cmd inp = FfEnd chunks \<longrightarrow> encoded cmd (concat chunks))
        \<longrightarrow> encoded \<lparr>format = ''wav'', audioCodec = ''pcm_s16le'', audioFrequency = 16000,
                  audioChannels = 1\<rparr> out)"
  using assms
  by (auto simp: transcode_def transcode_command_def split: ffmpeg_outcome.splits)

theorem transcode_requests_pcm_s16le_16000_mono_witness:
  "transcode (demo_host True) 0 [1, 2, 3]
     = ([RunFfmpeg \<lparr>format = ''wav'', audioCodec = ''pcm_s16le'', audioFrequency = 16000,
                  audioChannels = 1\<rparr> [1, 2, 3]], Inr [4, 5, 6])
   \<and> ffmpeg (demo_host True) \<lparr>format = ''wav'', audioCodec = ''pcm_s16le'',
        audioFrequency = 16000, audioChannels = 1\<rparr> [1, 2, 3] = FfEnd [[4, 5], [6]]"
proof -
  have ev: "transcode (demo_host True) 0 [1, 2, 3]
     = ([RunFfmpeg transcode_command [1, 2, 3]], Inr [4, 5, 6])"
    by (simp add: transcode_def demo_host_def)
  from transcode_requests_pcm_s16le_16000_mono [OF ev] ev
  show ?thesis by (auto simp: demo_host_def)
qed

end
